theory Spec2Isabelle
  imports Complex_Main "HOL-Library.Signed_Division" "HOL-Library.Log_Nat"
begin

section \<open>Concert: certificate issuance and renewal (certs.go)\<close>

text \<open>
  A shallow embedding of \<^verbatim>\<open>certs.go\<close>. Go strings and byte slices are lists of
  bytes (\<^typ>\<open>string\<close>), \<^verbatim>\<open>len\<close> counts bytes. A run-time panic of the Go
  code (an out-of-range slice) is the value \<open>None\<close> of an option type.
\<close>

type_synonym bytes = string

subsection \<open>The string functions of the Go library used by the validator\<close>

text \<open>
  \<^verbatim>\<open>strings.TrimSpace\<close> removes leading and trailing white space as defined by Unicode
  (\<^verbatim>\<open>unicode.IsSpace\<close>), decoding the string as UTF-8. The white-space runes are
  U+0009..U+000D, U+0020, U+0085, U+00A0, U+1680, U+2000..U+200A, U+2028, U+2029, U+202F,
  U+205F and U+3000; \<open>spaceRunes\<close> lists their UTF-8 encodings. A rune is decoded to one
  of them exactly when the bytes read are its (unique, shortest) encoding, forwards
  (\<^verbatim>\<open>DecodeRuneInString\<close>) and backwards (\<^verbatim>\<open>DecodeLastRuneInString\<close>) alike; an
  invalid byte decodes to U+FFFD, which is not white space.
\<close>

definition spaceRunes :: "string list" where
  "spaceRunes =
     [[CHR 0x09], [CHR 0x0A], [CHR 0x0B], [CHR 0x0C], [CHR 0x0D], [CHR 0x20],
      [CHR 0xC2, CHR 0x85], [CHR 0xC2, CHR 0xA0],
      [CHR 0xE1, CHR 0x9A, CHR 0x80],
      [CHR 0xE2, CHR 0x80, CHR 0x80], [CHR 0xE2, CHR 0x80, CHR 0x81],
      [CHR 0xE2, CHR 0x80, CHR 0x82], [CHR 0xE2, CHR 0x80, CHR 0x83],
      [CHR 0xE2, CHR 0x80, CHR 0x84], [CHR 0xE2, CHR 0x80, CHR 0x85],
      [CHR 0xE2, CHR 0x80, CHR 0x86], [CHR 0xE2, CHR 0x80, CHR 0x87],
      [CHR 0xE2, CHR 0x80, CHR 0x88], [CHR 0xE2, CHR 0x80, CHR 0x89],
      [CHR 0xE2, CHR 0x80, CHR 0x8A],
      [CHR 0xE2, CHR 0x80, CHR 0xA8], [CHR 0xE2, CHR 0x80, CHR 0xA9],
      [CHR 0xE2, CHR 0x80, CHR 0xAF],
      [CHR 0xE2, CHR 0x81, CHR 0x9F],
      [CHR 0xE3, CHR 0x80, CHR 0x80]]"

definition HasPrefix :: "string \<Rightarrow> string \<Rightarrow> bool" where
  "HasPrefix s p \<longleftrightarrow> length p \<le> length s \<and> take (length p) s = p"

definition HasSuffix :: "string \<Rightarrow> string \<Rightarrow> bool" where
  "HasSuffix s p \<longleftrightarrow> length p \<le> length s \<and> drop (length s - length p) s = p"

text \<open>The width in bytes of a white-space rune at the start (end) of \<open>s\<close>, 0 if there is none.\<close>

definition leadingSpace :: "string \<Rightarrow> nat" where
  "leadingSpace s = (case find (HasPrefix s) spaceRunes of None \<Rightarrow> 0 | Some p \<Rightarrow> length p)"

definition trailingSpace :: "string \<Rightarrow> nat" where
  "trailingSpace s = (case find (HasSuffix s) spaceRunes of None \<Rightarrow> 0 | Some p \<Rightarrow> length p)"

lemma spaceRunes_nonempty: "p \<in> set spaceRunes \<Longrightarrow> 0 < length p"
  by (auto simp: spaceRunes_def)

lemma leadingSpace_le: "leadingSpace s \<le> length s"
proof (cases "find (HasPrefix s) spaceRunes")
  case None
  then show ?thesis by (simp add: leadingSpace_def)
next
  case (Some p)
  then have "HasPrefix s p" by (auto simp: find_Some_iff)
  with Some show ?thesis by (simp add: leadingSpace_def HasPrefix_def)
qed

lemma trailingSpace_le: "trailingSpace s \<le> length s"
proof (cases "find (HasSuffix s) spaceRunes")
  case None
  then show ?thesis by (simp add: trailingSpace_def)
next
  case (Some p)
  then have "HasSuffix s p" by (auto simp: find_Some_iff)
  with Some show ?thesis by (simp add: trailingSpace_def HasSuffix_def)
qed

lemma leadingSpace_drop: "leadingSpace s \<noteq> 0 \<Longrightarrow> length (drop (leadingSpace s) s) < length s"
  using leadingSpace_le [of s] by simp

lemma trailingSpace_take:
  "trailingSpace s \<noteq> 0 \<Longrightarrow> length (take (length s - trailingSpace s) s) < length s"
  using trailingSpace_le [of s] by simp

function TrimLeftSpace :: "string \<Rightarrow> string" where
  "TrimLeftSpace s =
     (if leadingSpace s = 0 then s else TrimLeftSpace (drop (leadingSpace s) s))"
  by pat_completeness auto
termination
  by (relation "measure length") (use leadingSpace_drop in auto)

function TrimRightSpace :: "string \<Rightarrow> string" where
  "TrimRightSpace s =
     (if trailingSpace s = 0 then s else TrimRightSpace (take (length s - trailingSpace s) s))"
  by pat_completeness auto
termination
  by (relation "measure length") (use trailingSpace_take in \<open>auto simp del: length_take\<close>)

declare TrimLeftSpace.simps [simp del] TrimRightSpace.simps [simp del]

definition TrimSpace :: "string \<Rightarrow> string" where
  "TrimSpace s = TrimRightSpace (TrimLeftSpace s)"

text \<open>
  \<^verbatim>\<open>strings.ContainsAny(s, chars)\<close> reports whether a rune of \<open>chars\<close> occurs in
  \<open>s\<close>. Its one call passes a \<open>chars\<close> of ASCII bytes only; a byte below 0x80 is never
  part of the encoding of another rune, so a rune of \<open>s\<close> equals one of \<open>chars\<close> exactly
  when a byte of \<open>s\<close> does.
\<close>

definition ContainsAny :: "string \<Rightarrow> string \<Rightarrow> bool" where
  "ContainsAny s chars = list_ex (\<lambda>c. c \<in> set chars) s"

text \<open>Go's slice expressions \<^verbatim>\<open>s[i:]\<close> and \<^verbatim>\<open>s[:j]\<close>, which panic out of range.\<close>

definition sliceFrom :: "string \<Rightarrow> int \<Rightarrow> string option" where
  "sliceFrom s i = (if 0 \<le> i \<and> i \<le> int (length s) then Some (drop (nat i) s) else None)"

definition sliceTo :: "string \<Rightarrow> int \<Rightarrow> string option" where
  "sliceTo s j = (if 0 \<le> j \<and> j \<le> int (length s) then Some (take (nat j) s) else None)"

text \<open>
  \<^verbatim>\<open>strings.Split(s, sep)\<close> for a separator of one byte: \<^verbatim>\<open>genSplit\<close> cuts at each
  \<^verbatim>\<open>Index(s, sep)\<close> and ends with the rest.
\<close>

fun IndexByte :: "string \<Rightarrow> char \<Rightarrow> nat option" where
  "IndexByte [] c = None"
| "IndexByte (x # xs) c = (if x = c then Some 0 else map_option Suc (IndexByte xs c))"

lemma IndexByte_less: "IndexByte s c = Some m \<Longrightarrow> m < length s"
  by (induction s arbitrary: m) (auto split: if_splits)

function Split :: "string \<Rightarrow> char \<Rightarrow> string list" where
  "Split s sep =
     (case IndexByte s sep of
        None \<Rightarrow> [s]
      | Some m \<Rightarrow> take m s # Split (drop (m + 1) s) sep)"
  by pat_completeness auto
termination
  by (relation "measure (\<lambda>(s, sep). length s)") (auto dest: IndexByte_less)

declare Split.simps [simp del]

subsection \<open>Domain Validator\<close>

text \<open>The forbidden characters of line 65, a Go string literal of 28 bytes.\<close>

definition forbidden :: string where
  "forbidden =
     [CHR 0x60] @ ''~!@#$%^&*()+={}[]|'' @ [CHR 0x5C, CHR 0x22, CHR 0x27] @ '';:><?/''"

text \<open>
  The condition \<^verbatim>\<open>host[len(host)-1:] == c || host[:1] == c\<close>: the left operand is
  evaluated first, the right one only when the left is false, and either slice may panic.
\<close>

definition endsOrStartsWith :: "string \<Rightarrow> string \<Rightarrow> bool option" where
  "endsOrStartsWith host c =
     (case sliceFrom host (int (length host) - 1) of
        None \<Rightarrow> None
      | Some l \<Rightarrow>
          if l = c then Some True
          else (case sliceTo host 1 of None \<Rightarrow> None | Some f \<Rightarrow> Some (f = c)))"

definition isValidDomain :: "string \<Rightarrow> bool option" where
  "isValidDomain host0 =
     (let host = TrimSpace host0 in
      if length host = 0 \<or> length host > 255 then Some False
      else case endsOrStartsWith host ''-'' of
        None \<Rightarrow> None
      | Some True \<Rightarrow> Some False
      | Some False \<Rightarrow>
     (case endsOrStartsWith host ''_'' of
        None \<Rightarrow> None
      | Some True \<Rightarrow> Some False
      | Some False \<Rightarrow>
     (case endsOrStartsWith host ''.'' of
        None \<Rightarrow> None
      | Some True \<Rightarrow> Some False
      | Some False \<Rightarrow>
          if ContainsAny host forbidden then Some False else Some True)))"

definition isSubDomain :: "string \<Rightarrow> bool" where
  "isSubDomain domain = (let domainParts = Split domain (CHR ''.'') in length domainParts > 2)"

subsection \<open>Errors, certificate resources and the CA client\<close>

text \<open>
  A Go \<^verbatim>\<open>error\<close> is either a value handed back by a collaborator (the operating
  system, the JSON and PEM decoders, the CA client), kept as its message, or one built by
  \<^verbatim>\<open>fmt.Errorf\<close>, kept as the format string with its arguments.
\<close>

datatype error =
    External string
  | Errorf string "fmtarg list"
and fmtarg =
    ArgInt int
  | ArgStrings "string list"
  | ArgErrors "error list"

text \<open>
  \<^verbatim>\<open>acme.CertificateResource\<close> is declared by the CA client library: the two byte
  fields that \<^verbatim>\<open>certs.go\<close> reads and writes, and the CA's metadata (the domain and
  the resource URLs). \<open>emptyResource\<close> is its zero value \<^verbatim>\<open>acme.CertificateResource{}\<close>.
\<close>

record CertificateResource =
  Domain :: string
  CertURL :: string
  CertStableURL :: string
  PrivateKey :: bytes
  Certificate :: bytes

definition emptyResource :: CertificateResource where
  "emptyResource =
     \<lparr>Domain = [], CertURL = [], CertStableURL = [], PrivateKey = [], Certificate = []\<rparr>"

datatype rsa_key = RSAKey (bits: nat) (material: bytes)

datatype RegistrationResource = Registration_of string

datatype KeyType = EC256 | EC384 | RSA2048 | RSA4096 | RSA8192

datatype Challenge = HTTP01 | TLSSNI01 | DNS01

text \<open>
  \<^verbatim>\<open>conUser\<close>, the account: the code fills \<^verbatim>\<open>Email\<close> and \<^verbatim>\<open>key\<close> and, after
  a registration, \<^verbatim>\<open>Registration\<close> (a nil pointer until then).
\<close>

record conUser =
  Email :: string
  key :: rsa_key
  Registration :: "RegistrationResource option"

text \<open>
  The client holds a pointer to the user, so an assignment to \<^verbatim>\<open>user.Registration\<close>
  is seen through the client: the model keeps the user inside the client.
\<close>

record Client =
  caURL :: string
  clientUser :: conUser
  keyType :: KeyType
  excluded :: "Challenge list"

text \<open>A file name inside a directory, \<^verbatim>\<open>filepath.Join(certsDir, name)\<close>, kept symbolic.\<close>

datatype path = Join string string

subsection \<open>Time\<close>

text \<open>
  A \<^verbatim>\<open>time.Time\<close> is a count of nanoseconds since the zero time \<^verbatim>\<open>time.Time{}\<close>;
  a \<^verbatim>\<open>time.Duration\<close> is a 64-bit count of nanoseconds. \<^verbatim>\<open>t.Sub(u)\<close> is the
  difference, or the largest or smallest duration when the difference does not fit.
\<close>

type_synonym Time = int
type_synonym Duration = int

definition zeroTime :: Time where
  "zeroTime = 0"

definition minDuration :: Duration where
  "minDuration = - (2 ^ 63)"

definition maxDuration :: Duration where
  "maxDuration = 2 ^ 63 - 1"

definition Sub :: "Time \<Rightarrow> Time \<Rightarrow> Duration" where
  "Sub t u =
     (let d = t - u in
      if d < minDuration then minDuration else if maxDuration < d then maxDuration else d)"

definition Hour :: Duration where
  "Hour = 60 * 60 * 1000000000"

text \<open>
  A \<^verbatim>\<open>float64\<close> value is the rational number it denotes. \<open>float64 x\<close> rounds \<open>x\<close>
  to the nearest number with a significand of 53 bits, ties to the even significand, as
  every IEEE 754 binary64 operation rounds its exact result. The exponent is not bounded:
  the non-zero values of this program lie between \<^verbatim>\<open>2^-42\<close> and \<^verbatim>\<open>2^42\<close> in
  magnitude, far from overflow and from subnormal numbers. \<open>ilog2 x\<close> is the exponent of a
  positive \<open>x\<close>: the integer \<open>e\<close> with \<open>2 powi e \<le> x < 2 powi (e + 1)\<close>.
\<close>

definition roundHalfEven :: "rat \<Rightarrow> int" where
  "roundHalfEven x =
     (let f = \<lfloor>x\<rfloor>; r = x - of_int f in
      if r < 1 / 2 then f else if 1 / 2 < r then f + 1 else if even f then f else f + 1)"

definition ilog2 :: "rat \<Rightarrow> int" where
  "ilog2 x =
     (if 1 \<le> x then int (floorlog 2 (nat \<lfloor>x\<rfloor>)) - 1
      else - int (floorlog 2 (nat (\<lceil>1 / x\<rceil> - 1))))"

definition float64 :: "rat \<Rightarrow> rat" where
  "float64 x =
     (if x = 0 then 0
      else let a = \<bar>x\<bar>; u = 2 powi (ilog2 a - 52); m = roundHalfEven (a / u)
           in sgn x * (of_int m * u))"

text \<open>
  \<^verbatim>\<open>Duration.Hours\<close> splits the duration with Go's integer division and remainder
  (both truncate toward zero) and adds the two parts as \<^verbatim>\<open>float64\<close>:
  \<^verbatim>\<open>float64(hour) + float64(nsec)/(60*60*1e9)\<close>. \<open>toInt\<close> is the conversion
  \<^verbatim>\<open>int(x)\<close> of a floating-point value, which discards the fraction (truncation toward
  zero).
\<close>

definition Hours :: "Duration \<Rightarrow> rat" where
  "Hours d =
     (let hour = d sdiv Hour; nsec = d smod Hour in
      float64 (float64 (of_int hour) + float64 (float64 (of_int nsec) / (60 * 60 * 1000000000))))"

definition toInt :: "rat \<Rightarrow> int" where
  "toInt x = (if x < 0 then \<lceil>x\<rceil> else \<lfloor>x\<rfloor>)"

subsection \<open>The world outside: files, clock, key generator, CA\<close>

text \<open>
  Every call that leaves the program is recorded, in order, in the trace of the world.
\<close>

datatype event =
    EvReadFile path
  | EvWriteFile path bytes nat
  | EvNow
  | EvGenerateKey nat
  | EvNewClient string string KeyType
  | EvRegister
  | EvAgreeToTOS
  | EvObtainCertificate "string list" bool
  | EvRenewCertificate CertificateResource bool

record world =
  disk :: "path \<Rightarrow> bytes option"
  trace :: "event list"

text \<open>
  What the collaborators answer. \<open>acmeServer\<close> is the CA endpoint, a constant of the
  program declared outside \<^verbatim>\<open>certs.go\<close>. A failing write returns its error and
  leaves at its path whatever the operating system left there.
\<close>

record env =
  acmeServer :: string
  clock :: Time
  readFault :: "path \<Rightarrow> error option"
  writeFault :: "path \<Rightarrow> (error \<times> bytes option) option"
  pemCertExpiration :: "bytes \<Rightarrow> Time \<times> error option"
  rsaGenerateKey :: "nat \<Rightarrow> rsa_key \<times> error option"
  acmeNewClient :: "string \<Rightarrow> conUser \<Rightarrow> KeyType \<Rightarrow> error option"
  caRegister :: "Client \<Rightarrow> RegistrationResource \<times> error option"
  caAgreeToTOS :: "Client \<Rightarrow> error option"
  caObtainCertificate ::
    "Client \<Rightarrow> string list \<Rightarrow> bool \<Rightarrow> CertificateResource \<times> (string \<times> error) list"
  caRenewCertificate ::
    "Client \<Rightarrow> CertificateResource \<Rightarrow> bool \<Rightarrow> CertificateResource \<times> error option"
  jsonUnmarshal :: "bytes \<Rightarrow> CertificateResource \<times> error option"
  jsonMarshalIndent :: "CertificateResource \<Rightarrow> string \<Rightarrow> string \<Rightarrow> bytes \<times> error option"

definition record_event :: "event \<Rightarrow> world \<Rightarrow> world" where
  "record_event ev w = w\<lparr>trace := trace w @ [ev]\<rparr>"

definition ReadFile :: "env \<Rightarrow> path \<Rightarrow> world \<Rightarrow> (bytes \<times> error option) \<times> world" where
  "ReadFile E p w =
     (let w' = record_event (EvReadFile p) w in
      case readFault E p of
        Some e \<Rightarrow> (([], Some e), w')
      | None \<Rightarrow>
          (case disk w p of
             None \<Rightarrow> (([], Some (External ''no such file or directory'')), w')
           | Some b \<Rightarrow> ((b, None), w')))"

definition WriteFile :: "env \<Rightarrow> path \<Rightarrow> bytes \<Rightarrow> nat \<Rightarrow> world \<Rightarrow> error option \<times> world" where
  "WriteFile E p data perm w =
     (let w' = record_event (EvWriteFile p data perm) w in
      case writeFault E p of
        None \<Rightarrow> (None, w'\<lparr>disk := (disk w')(p \<mapsto> data)\<rparr>)
      | Some (e, left) \<Rightarrow> (Some e, w'\<lparr>disk := (disk w')(p := left)\<rparr>))"

definition Now :: "env \<Rightarrow> world \<Rightarrow> Time \<times> world" where
  "Now E w = (clock E, record_event EvNow w)"

definition GenerateKey :: "env \<Rightarrow> nat \<Rightarrow> world \<Rightarrow> (rsa_key \<times> error option) \<times> world" where
  "GenerateKey E n w = (rsaGenerateKey E n, record_event (EvGenerateKey n) w)"

definition NewClient ::
  "env \<Rightarrow> string \<Rightarrow> conUser \<Rightarrow> KeyType \<Rightarrow> world \<Rightarrow> (Client \<times> error option) \<times> world" where
  "NewClient E url u kt w =
     ((\<lparr>caURL = url, clientUser = u, keyType = kt, excluded = []\<rparr>, acmeNewClient E url u kt),
      record_event (EvNewClient url (Email u) kt) w)"

definition ExcludeChallenges :: "Client \<Rightarrow> Challenge list \<Rightarrow> Client" where
  "ExcludeChallenges c cs = c\<lparr>excluded := excluded c @ cs\<rparr>"

definition Register ::
  "env \<Rightarrow> Client \<Rightarrow> world \<Rightarrow> (RegistrationResource \<times> error option) \<times> world" where
  "Register E c w = (caRegister E c, record_event EvRegister w)"

definition AgreeToTOS :: "env \<Rightarrow> Client \<Rightarrow> world \<Rightarrow> error option \<times> world" where
  "AgreeToTOS E c w = (caAgreeToTOS E c, record_event EvAgreeToTOS w)"

definition ObtainCertificate ::
  "env \<Rightarrow> Client \<Rightarrow> string list \<Rightarrow> bool \<Rightarrow> world
     \<Rightarrow> (CertificateResource \<times> (string \<times> error) list) \<times> world" where
  "ObtainCertificate E c domains bundle w =
     (caObtainCertificate E c domains bundle, record_event (EvObtainCertificate domains bundle) w)"

definition RenewCertificate ::
  "env \<Rightarrow> Client \<Rightarrow> CertificateResource \<Rightarrow> bool \<Rightarrow> world
     \<Rightarrow> (CertificateResource \<times> error option) \<times> world" where
  "RenewCertificate E c cert bundle w =
     (caRenewCertificate E c cert bundle, record_event (EvRenewCertificate cert bundle) w)"

subsection \<open>Certificate Store\<close>

text \<open>The permission bits \<^verbatim>\<open>0600\<close> (octal): read and write for the owner only.\<close>

definition perm0600 :: nat where
  "perm0600 = 6 * 8 * 8 + 0 * 8 + 0"

definition loadCert :: "env \<Rightarrow> string \<Rightarrow> world \<Rightarrow> (bytes \<times> error option) \<times> world" where
  "loadCert E certsDir w = ReadFile E (Join certsDir ''public.crt'') w"

definition loadCertMeta ::
  "env \<Rightarrow> string \<Rightarrow> world \<Rightarrow> (CertificateResource \<times> error option) \<times> world" where
  "loadCertMeta E certsDir w =
     (case ReadFile E (Join certsDir ''certs.json'') w of
        ((metaBytes, Some err), w1) \<Rightarrow> ((emptyResource, Some err), w1)
      | ((metaBytes, None), w1) \<Rightarrow>
          (case jsonUnmarshal E metaBytes of
             (certRes, Some err) \<Rightarrow> ((emptyResource, Some err), w1)
           | (certRes, None) \<Rightarrow> ((certRes, None), w1)))"

definition saveCerts :: "env \<Rightarrow> string \<Rightarrow> CertificateResource \<Rightarrow> world \<Rightarrow> error option \<times> world" where
  "saveCerts E certsDir cert w =
     (case WriteFile E (Join certsDir ''public.crt'') (Certificate cert) perm0600 w of
        (Some err, w1) \<Rightarrow> (Some err, w1)
      | (None, w1) \<Rightarrow>
     (case WriteFile E (Join certsDir ''private.key'') (PrivateKey cert) perm0600 w1 of
        (Some err, w2) \<Rightarrow> (Some err, w2)
      | (None, w2) \<Rightarrow>
     (case jsonMarshalIndent E cert [] [CHR 0x09] of
        (jsonBytes, Some err) \<Rightarrow> (Some err, w2)
      | (jsonBytes, None) \<Rightarrow>
     (case WriteFile E (Join certsDir ''certs.json'') jsonBytes perm0600 w2 of
        (Some err, w3) \<Rightarrow> (Some err, w3)
      | (None, w3) \<Rightarrow> (None, w3)))))"

subsection \<open>Expiration Inspector\<close>

definition getCertExpTime :: "env \<Rightarrow> string \<Rightarrow> world \<Rightarrow> (Time \<times> error option) \<times> world" where
  "getCertExpTime E certsDir w =
     (case loadCert E certsDir w of
        ((certBytes, Some err), w1) \<Rightarrow> ((zeroTime, Some err), w1)
      | ((certBytes, None), w1) \<Rightarrow> (pemCertExpiration E certBytes, w1))"

subsection \<open>Issuance Orchestrator\<close>

definition rsaKeySize :: nat where
  "rsaKeySize = 2048"

text \<open>Lines 117 to 122: the domains submitted for one certificate.\<close>

definition buildDomains :: "string \<Rightarrow> string list \<Rightarrow> string list" where
  "buildDomains domain subDomains =
     (let domains = [domain] in
      if \<not> isSubDomain domain
      then foldl (\<lambda>domains subDomain. domains @ [subDomain @ ''.'' @ domain]) domains subDomains
      else domains)"

text \<open>
  Lines 129 to 134: the loop over the map of failures, which appends each key to one slice
  and its value to the other. The map is given as the list of its entries in the order in
  which the loop meets them (Go leaves that order open).
\<close>

definition collectFailures :: "(string \<times> error) list \<Rightarrow> string list \<times> error list" where
  "collectFailures failures =
     foldl (\<lambda>(failedDomains, failedDomainsErrors) (failedDomain, failedDomainErr).
              (failedDomains @ [failedDomain], failedDomainsErrors @ [failedDomainErr]))
       ([], []) failures"

definition obtainFailedFormat :: string where
  "obtainFailedFormat =
     ''Failed to obtain certificates for Domains: %s, with following errors %s respectively.''"

definition genCerts ::
  "env \<Rightarrow> string \<Rightarrow> string \<Rightarrow> string list \<Rightarrow> world
     \<Rightarrow> (CertificateResource \<times> error option) \<times> world" where
  "genCerts E email domain subDomains w =
     (case GenerateKey E rsaKeySize w of
        ((privateKey, Some err), w1) \<Rightarrow> ((emptyResource, Some err), w1)
      | ((privateKey, None), w1) \<Rightarrow>
     (let user = \<lparr>Email = email, key = privateKey, Registration = None\<rparr> in
      case NewClient E (acmeServer E) user RSA2048 w1 of
        ((client, Some err), w2) \<Rightarrow> ((emptyResource, Some err), w2)
      | ((client, None), w2) \<Rightarrow>
     (let client = ExcludeChallenges client [DNS01] in
      case Register E client w2 of
        ((reg, Some err), w3) \<Rightarrow> ((emptyResource, Some err), w3)
      | ((reg, None), w3) \<Rightarrow>
     (let client = client\<lparr>clientUser := (clientUser client)\<lparr>Registration := Some reg\<rparr>\<rparr> in
      case AgreeToTOS E client w3 of
        (Some err, w4) \<Rightarrow> ((emptyResource, Some err), w4)
      | (None, w4) \<Rightarrow>
     (let domains = buildDomains domain subDomains;
          isBundle = True in
      case ObtainCertificate E client domains isBundle w4 of
        ((newCertificates, failures), w5) \<Rightarrow>
          if length failures > 0
          then (let (failedDomains, failedDomainsErrors) = collectFailures failures;
                    failure = Errorf obtainFailedFormat
                                [ArgStrings failedDomains, ArgErrors failedDomainsErrors]
                in ((emptyResource, Some failure), w5))
          else ((newCertificates, None), w5))))))"

subsection \<open>Renewal Orchestrator\<close>

definition renewDaysLimit :: int where
  "renewDaysLimit = 45"

text \<open>The expression of line 149, \<^verbatim>\<open>int(expTime.Sub(time.Now()).Hours() / 24.0)\<close>.\<close>

definition daysUntilExpiry :: "Time \<Rightarrow> Time \<Rightarrow> int" where
  "daysUntilExpiry expTime now = toInt (float64 (Hours (Sub expTime now) / 24))"

definition notExpiredFormat :: string where
  "notExpiredFormat = ''Keys have not expired yet, please renew in %d days.''"

text \<open>
  Line 148 binds the error of \<^verbatim>\<open>acme.GetPEMCertExpiration\<close> to \<^verbatim>\<open>err\<close>; the
  next use of \<^verbatim>\<open>err\<close> is its assignment in line 156, so the model drops that value
  where the code does.
\<close>

definition renewCerts ::
  "env \<Rightarrow> string \<Rightarrow> string \<Rightarrow> world \<Rightarrow> (CertificateResource \<times> error option) \<times> world" where
  "renewCerts E certsDir email w =
     (case loadCert E certsDir w of
        ((certBytes, Some err), w1) \<Rightarrow> ((emptyResource, Some err), w1)
      | ((certBytes, None), w1) \<Rightarrow>
     (case pemCertExpiration E certBytes of (expTime, err) \<Rightarrow>
     (case Now E w1 of (now, w2) \<Rightarrow>
     (let expTimeDays = daysUntilExpiry expTime now in
      if expTimeDays > renewDaysLimit
      then ((emptyResource, Some (Errorf notExpiredFormat [ArgInt expTimeDays])), w2)
      else
     (case GenerateKey E rsaKeySize w2 of
        ((privateKey, Some err), w3) \<Rightarrow> ((emptyResource, Some err), w3)
      | ((privateKey, None), w3) \<Rightarrow>
     (let user = \<lparr>Email = email, key = privateKey, Registration = None\<rparr> in
      case NewClient E (acmeServer E) user RSA2048 w3 of
        ((client, Some err), w4) \<Rightarrow> ((emptyResource, Some err), w4)
      | ((client, None), w4) \<Rightarrow>
     (let client = ExcludeChallenges client [DNS01] in
      case loadCertMeta E certsDir w4 of
        ((certMeta, Some err), w5) \<Rightarrow> ((emptyResource, Some err), w5)
      | ((certMeta, None), w5) \<Rightarrow>
     (let certMeta = certMeta\<lparr>Certificate := certBytes\<rparr>;
          isBundle = True in
      case RenewCertificate E client certMeta isBundle w5 of
        ((newCertificates, Some err), w6) \<Rightarrow> ((emptyResource, Some err), w6)
      | ((newCertificates, None), w6) \<Rightarrow> ((newCertificates, None), w6)))))))))"

subsection \<open>Notions used to state the properties\<close>

text \<open>The events a call appended to the trace: those of \<open>w'\<close> after those of \<open>w\<close>.\<close>

definition emitted :: "world \<Rightarrow> world \<Rightarrow> event list" where
  "emitted w w' = drop (length (trace w)) (trace w')"

definition Day :: Duration where
  "Day = 24 * Hour"

text \<open>The day count of line 149 as a function of the remaining duration.\<close>

definition daysOf :: "Duration \<Rightarrow> int" where
  "daysOf d = toInt (float64 (Hours d / 24))"

text \<open>The labels of a domain name: strings without a dot which, joined by dots, give the name.\<close>

fun joinWith :: "char \<Rightarrow> string list \<Rightarrow> string" where
  "joinWith sep [] = []"
| "joinWith sep [l] = l"
| "joinWith sep (l # m # ls) = l @ sep # joinWith sep (m # ls)"

definition labelsOf :: "string \<Rightarrow> string list \<Rightarrow> bool" where
  "labelsOf d ls \<longleftrightarrow>
     ls \<noteq> [] \<and> (\<forall>l\<in>set ls. CHR ''.'' \<notin> set l) \<and> joinWith (CHR ''.'') ls = d"

text \<open>
  The validator's contract as the specification words it, on the trimmed string: rejected
  when empty, longer than 255, starting or ending with one of \<open>-\<close>, \<open>_\<close>, \<open>.\<close>, or
  holding a forbidden character.
\<close>

definition edgeChars :: "char set" where
  "edgeChars = {CHR ''-'', CHR ''_'', CHR ''.''}"

definition rejected_spec :: "string \<Rightarrow> bool" where
  "rejected_spec t \<longleftrightarrow>
     t = [] \<or> 255 < length t
     \<or> (\<exists>c r. t = c # r \<and> c \<in> edgeChars) \<or> (\<exists>r c. t = r @ [c] \<and> c \<in> edgeChars)
     \<or> (\<exists>c. c \<in> set t \<and> c \<in> set forbidden)"

text \<open>The account and the client that the two orchestrators build from an email and a key.\<close>

definition newUser :: "string \<Rightarrow> rsa_key \<Rightarrow> conUser" where
  "newUser email k = \<lparr>Email = email, key = k, Registration = None\<rparr>"

definition clientOf :: "env \<Rightarrow> string \<Rightarrow> rsa_key \<Rightarrow> RegistrationResource option \<Rightarrow> Client" where
  "clientOf E email k reg =
     \<lparr>caURL = acmeServer E,
      clientUser = \<lparr>Email = email, key = k, Registration = reg\<rparr>,
      keyType = RSA2048, excluded = [DNS01]\<rparr>"

subsection \<open>A test double for the collaborators\<close>

text \<open>
  An environment in which every collaborator succeeds, but for the parameters: the time
  left on the stored certificate \<open>''CERT''\<close>, the failures the CA reports on issuance, and
  the faults of file writes. Any other certificate bytes do not parse, and the PEM
  decoder then returns the zero time with its error. The clock stands in the year 2016.
\<close>

definition sampleNow :: Time where
  "sampleNow = 63600000000000000000"

definition sampleMeta :: CertificateResource where
  "sampleMeta =
     \<lparr>Domain = ''example.com'', CertURL = ''https://ca.example/cert/1'',
      CertStableURL = ''https://ca.example/cert/1'', PrivateKey = [], Certificate = []\<rparr>"

definition issuedCert :: CertificateResource where
  "issuedCert =
     \<lparr>Domain = ''example.com'', CertURL = ''https://ca.example/cert/2'',
      CertStableURL = ''https://ca.example/cert/2'', PrivateKey = ''NEWKEY'',
      Certificate = ''NEWCERT''\<rparr>"

definition parseError :: error where
  "parseError = External ''could not parse the PEM certificate''"

definition sampleEnv ::
  "Duration \<Rightarrow> (string \<times> error) list \<Rightarrow> (path \<Rightarrow> (error \<times> bytes option) option) \<Rightarrow> env" where
  "sampleEnv remaining failures faults =
     \<lparr>acmeServer = ''https://ca.example/directory'',
      clock = sampleNow,
      readFault = (\<lambda>p. None),
      writeFault = faults,
      pemCertExpiration =
        (\<lambda>b. if b = ''CERT'' then (sampleNow + remaining, None) else (zeroTime, Some parseError)),
      rsaGenerateKey = (\<lambda>n. (RSAKey n ''KEY'', None)),
      acmeNewClient = (\<lambda>url u kt. None),
      caRegister = (\<lambda>c. (Registration_of ''https://ca.example/reg/1'', None)),
      caAgreeToTOS = (\<lambda>c. None),
      caObtainCertificate = (\<lambda>c domains bundle. (issuedCert, failures)),
      caRenewCertificate = (\<lambda>c cert bundle. (issuedCert, None)),
      jsonUnmarshal = (\<lambda>b. (sampleMeta, None)),
      jsonMarshalIndent = (\<lambda>c prefix indent. (''JSON'', None))\<rparr>"

definition noFaults :: "path \<Rightarrow> (error \<times> bytes option) option" where
  "noFaults p = None"

definition diskFull :: error where
  "diskFull = External ''no space left on device''"

definition metaFault :: "path \<Rightarrow> (error \<times> bytes option) option" where
  "metaFault p = (if p = Join ''certs'' ''certs.json'' then Some (diskFull, Some []) else None)"

definition sampleWorld :: "bytes \<Rightarrow> world" where
  "sampleWorld certBytes =
     \<lparr>disk = (\<lambda>p. if p = Join ''certs'' ''public.crt'' then Some certBytes
                  else if p = Join ''certs'' ''private.key'' then Some ''OLDKEY''
                  else if p = Join ''certs'' ''certs.json'' then Some ''{}''
                  else None),
      trace = []\<rparr>"

section \<open>Properties\<close>

subsection \<open>Auxiliary facts\<close>

lemmas collaborator_defs =
  ReadFile_def WriteFile_def Now_def GenerateKey_def NewClient_def Register_def
  AgreeToTOS_def ObtainCertificate_def RenewCertificate_def record_event_def
  ExcludeChallenges_def

lemma IndexByte_None_iff: "IndexByte s sep = None \<longleftrightarrow> sep \<notin> set s"
  by (induction s) auto

lemma IndexByte_append: "sep \<notin> set l \<Longrightarrow> IndexByte (l @ sep # r) sep = Some (length l)"
  by (induction l) auto

lemma IndexByte_Some:
  "IndexByte s sep = Some m \<Longrightarrow> sep \<notin> set (take m s) \<and> s = take m s @ sep # drop (Suc m) s"
  by (induction s arbitrary: m) (auto split: if_splits)

lemma Split_label: "sep \<notin> set l \<Longrightarrow> Split l sep = [l]"
  using IndexByte_None_iff [of l sep] by (simp add: Split.simps [of l])

lemma Split_append: "sep \<notin> set l \<Longrightarrow> Split (l @ sep # r) sep = l # Split r sep"
  by (simp add: Split.simps [of "l @ sep # r"] IndexByte_append)

lemma Split_joinWith:
  "ls \<noteq> [] \<Longrightarrow> \<forall>l\<in>set ls. sep \<notin> set l \<Longrightarrow> Split (joinWith sep ls) sep = ls"
  by (induction sep ls rule: joinWith.induct) (simp_all add: Split_label Split_append)

lemma Split_nonempty: "Split s sep \<noteq> []"
  by (simp add: Split.simps [of s] split: option.splits)

lemma Split_sep_free: "l \<in> set (Split s sep) \<Longrightarrow> sep \<notin> set l"
proof (induction s sep arbitrary: l rule: Split.induct)
  case (1 s sep)
  show ?case
  proof (cases "IndexByte s sep")
    case None
    with "1.prems" show ?thesis
      by (simp add: Split.simps [of s] IndexByte_None_iff)
  next
    case (Some m)
    with "1.prems" have "l = take m s \<or> l \<in> set (Split (drop (m + 1) s) sep)"
      by (simp add: Split.simps [of s])
    then show ?thesis
      using "1.IH" [OF Some] IndexByte_Some [OF Some] by auto
  qed
qed

lemma joinWith_Cons: "ls \<noteq> [] \<Longrightarrow> joinWith sep (l # ls) = l @ sep # joinWith sep ls"
  by (cases ls) simp_all

lemma joinWith_Split: "joinWith sep (Split s sep) = s"
proof (induction s sep rule: Split.induct)
  case (1 s sep)
  show ?case
  proof (cases "IndexByte s sep")
    case None
    then show ?thesis by (simp add: Split.simps [of s])
  next
    case (Some m)
    then have "joinWith sep (Split s sep) = take m s @ sep # drop (Suc m) s"
      using "1.IH" [OF Some] by (simp add: Split.simps [of s] joinWith_Cons Split_nonempty)
    with IndexByte_Some [OF Some] show ?thesis by simp
  qed
qed

lemma labelsOf_Split: "labelsOf d (Split d (CHR ''.''))"
  by (auto simp: labelsOf_def Split_nonempty joinWith_Split dest: Split_sep_free)

lemma labelsOf_unique: "labelsOf d ls \<Longrightarrow> ls = Split d (CHR ''.'')"
  unfolding labelsOf_def using Split_joinWith [of ls "CHR ''.''"] by auto

lemma TrimSpace_id: "leadingSpace s = 0 \<Longrightarrow> trailingSpace s = 0 \<Longrightarrow> TrimSpace s = s"
  by (simp add: TrimSpace_def TrimLeftSpace.simps [of s] TrimRightSpace.simps [of s])

lemma leadingSpace_letter: "leadingSpace (CHR ''a'' # xs) = 0"
  by (simp add: leadingSpace_def spaceRunes_def HasPrefix_def)

lemma trailingSpace_letter: "trailingSpace (xs @ [CHR ''a'']) = 0"
  by (simp add: trailingSpace_def spaceRunes_def HasSuffix_def)

lemma trailingSpace_letter_Cons: "trailingSpace (x # xs @ [CHR ''a'']) = 0"
  using trailingSpace_letter [of "x # xs"] by simp

lemma trailingSpace_blank: "trailingSpace (xs @ [CHR 0x20]) = 1"
  by (simp add: trailingSpace_def spaceRunes_def HasSuffix_def)

lemma TrimRightSpace_blank: "TrimRightSpace (xs @ [CHR 0x20]) = TrimRightSpace xs"
  by (simp add: TrimRightSpace.simps [of "xs @ [CHR 0x20]"] trailingSpace_blank)

lemma TrimRightSpace_blanks: "TrimRightSpace (xs @ replicate n (CHR 0x20)) = TrimRightSpace xs"
proof (induction n)
  case 0
  then show ?case by simp
next
  case (Suc n)
  have "xs @ replicate (Suc n) (CHR 0x20) = (xs @ replicate n (CHR 0x20)) @ [CHR 0x20]"
    by (simp add: replicate_append_same)
  then show ?case using Suc by (simp only: TrimRightSpace_blank)
qed

lemma TrimSpace_padded: "TrimSpace (''a'' @ replicate n (CHR 0x20)) = ''a''"
proof -
  have "TrimLeftSpace (''a'' @ replicate n (CHR 0x20)) = ''a'' @ replicate n (CHR 0x20)"
    by (simp add: TrimLeftSpace.simps [of "CHR ''a'' # replicate n (CHR 0x20)"] leadingSpace_letter)
  moreover have "TrimRightSpace ''a'' = ''a''"
    using trailingSpace_letter [of "[]"] by (simp add: TrimRightSpace.simps [of "''a''"])
  ultimately show ?thesis
    by (simp only: TrimSpace_def TrimRightSpace_blanks)
qed

lemma starts_edge: "(\<exists>c r. t = c # r \<and> c \<in> edgeChars) \<longleftrightarrow> t \<noteq> [] \<and> hd t \<in> edgeChars"
  by (cases t) auto

lemma ends_edge: "(\<exists>r c. t = r @ [c] \<and> c \<in> edgeChars) \<longleftrightarrow> t \<noteq> [] \<and> last t \<in> edgeChars"
  by (cases t rule: rev_cases) auto

lemma holds_forbidden:
  "(\<exists>c. c \<in> set t \<and> c \<in> set f) \<longleftrightarrow> list_ex (\<lambda>c. c \<in> set f) t"
  by (auto simp: list_ex_iff)

lemma endsOrStartsWith_eq:
  "t \<noteq> [] \<Longrightarrow> endsOrStartsWith t [x] = Some (last t = x \<or> hd t = x)"
proof -
  assume t: "t \<noteq> []"
  then have "drop (length t - 1) t = [last t]"
    by (cases t rule: rev_cases) simp_all
  moreover from t have "take 1 t = [hd t]"
    by (cases t) simp_all
  moreover from t have "nat (int (length t) - 1) = length t - 1" "0 \<le> int (length t) - 1"
    "1 \<le> length t"
    by (cases t; simp)+
  ultimately show ?thesis
    by (auto simp: endsOrStartsWith_def sliceFrom_def sliceTo_def)
qed

lemma foldl_append_each: "foldl (\<lambda>acc x. acc @ [f x]) acc xs = acc @ map f xs"
  by (induction xs arbitrary: acc) simp_all

lemma buildDomains_eq:
  "buildDomains domain subDomains =
     (if isSubDomain domain then [domain]
      else domain # map (\<lambda>subDomain. subDomain @ ''.'' @ domain) subDomains)"
  by (simp add: buildDomains_def foldl_append_each)

lemma collectFailures_foldl:
  "foldl (\<lambda>(failedDomains, failedDomainsErrors) (failedDomain, failedDomainErr).
              (failedDomains @ [failedDomain], failedDomainsErrors @ [failedDomainErr]))
       (ds, es) failures = (ds @ map fst failures, es @ map snd failures)"
  by (induction failures arbitrary: ds es) (simp_all add: case_prod_beta)

lemma collectFailures_eq: "collectFailures failures = (map fst failures, map snd failures)"
  by (simp add: collectFailures_def collectFailures_foldl)

lemma genCerts_events:
  "\<exists>n. emitted w (snd (genCerts E email domain subDomains w)) =
     take n [EvGenerateKey rsaKeySize, EvNewClient (acmeServer E) email RSA2048, EvRegister,
             EvAgreeToTOS, EvObtainCertificate (buildDomains domain subDomains) True]"
proof -
  let ?F = "[EvGenerateKey rsaKeySize, EvNewClient (acmeServer E) email RSA2048, EvRegister,
             EvAgreeToTOS, EvObtainCertificate (buildDomains domain subDomains) True]"
  let ?em = "emitted w (snd (genCerts E email domain subDomains w))"
  obtain k e1 where k: "rsaGenerateKey E rsaKeySize = (k, e1)" by (cases "rsaGenerateKey E rsaKeySize")
  obtain reg e3 where r: "caRegister E (clientOf E email k None) = (reg, e3)"
    by (cases "caRegister E (clientOf E email k None)")
  obtain res fs where o: "caObtainCertificate E (clientOf E email k (Some reg))
      (buildDomains domain subDomains) True = (res, fs)"
    by (cases "caObtainCertificate E (clientOf E email k (Some reg))
      (buildDomains domain subDomains) True")
  note defs = genCerts_def collaborator_defs Let_def emitted_def newUser_def clientOf_def
    collectFailures_eq
  consider (key) "e1 \<noteq> None"
    | (client) "e1 = None" "acmeNewClient E (acmeServer E) (newUser email k) RSA2048 \<noteq> None"
    | (register) "e1 = None" "acmeNewClient E (acmeServer E) (newUser email k) RSA2048 = None"
        "e3 \<noteq> None"
    | (agree) "e1 = None" "acmeNewClient E (acmeServer E) (newUser email k) RSA2048 = None"
        "e3 = None" "caAgreeToTOS E (clientOf E email k (Some reg)) \<noteq> None"
    | (issue) "e1 = None" "acmeNewClient E (acmeServer E) (newUser email k) RSA2048 = None"
        "e3 = None" "caAgreeToTOS E (clientOf E email k (Some reg)) = None"
    by blast
  then show ?thesis
  proof cases
    case key
    with k have "?em = take 1 ?F" by (auto simp: defs)
    then show ?thesis ..
  next
    case client
    with k have "?em = take 2 ?F" by (auto simp: defs)
    then show ?thesis ..
  next
    case register
    with k r have "?em = take 3 ?F" by (auto simp: defs)
    then show ?thesis ..
  next
    case agree
    with k r have "?em = take 4 ?F" by (auto simp: defs)
    then show ?thesis ..
  next
    case issue
    with k r o have "?em = take 5 ?F" by (auto simp: defs)
    then show ?thesis ..
  qed
qed

lemma genCerts_submits:
  assumes "EvObtainCertificate ds b \<in> set (emitted w (snd (genCerts E email domain subDomains w)))"
  shows "ds = buildDomains domain subDomains \<and> b"
proof -
  from genCerts_events [of w E email domain subDomains] obtain n where
    "emitted w (snd (genCerts E email domain subDomains w)) =
     take n [EvGenerateKey rsaKeySize, EvNewClient (acmeServer E) email RSA2048, EvRegister,
             EvAgreeToTOS, EvObtainCertificate (buildDomains domain subDomains) True]" ..
  with assms have "EvObtainCertificate ds b \<in>
     set [EvGenerateKey rsaKeySize, EvNewClient (acmeServer E) email RSA2048, EvRegister,
             EvAgreeToTOS, EvObtainCertificate (buildDomains domain subDomains) True]"
    by (metis in_set_takeD)
  then show ?thesis by simp
qed

lemma genCerts_exchange:
  assumes "rsaGenerateKey E rsaKeySize = (k, None)"
      and "acmeNewClient E (acmeServer E) (newUser email k) RSA2048 = None"
      and "caRegister E (clientOf E email k None) = (reg, None)"
      and "caAgreeToTOS E (clientOf E email k (Some reg)) = None"
      and "caObtainCertificate E (clientOf E email k (Some reg))
             (buildDomains domain subDomains) True = (res, failures)"
  shows "genCerts E email domain subDomains w =
     ((if failures \<noteq> []
       then (emptyResource, Some (Errorf obtainFailedFormat
               [ArgStrings (map fst failures), ArgErrors (map snd failures)]))
       else (res, None)),
      w\<lparr>trace := trace w @
         [EvGenerateKey rsaKeySize, EvNewClient (acmeServer E) email RSA2048, EvRegister,
          EvAgreeToTOS, EvObtainCertificate (buildDomains domain subDomains) True]\<rparr>)"
  using assms
  by (simp add: genCerts_def collaborator_defs Let_def collectFailures_eq newUser_def
      clientOf_def)

lemma renewCerts_refuses:
  assumes "readFault E (Join certsDir ''public.crt'') = None"
      and "disk w (Join certsDir ''public.crt'') = Some certBytes"
      and "renewDaysLimit < daysUntilExpiry (fst (pemCertExpiration E certBytes)) (clock E)"
  shows "renewCerts E certsDir email w =
    ((emptyResource, Some (Errorf notExpiredFormat
        [ArgInt (daysUntilExpiry (fst (pemCertExpiration E certBytes)) (clock E))])),
      w\<lparr>trace := trace w @ [EvReadFile (Join certsDir ''public.crt''), EvNow]\<rparr>)"
proof -
  obtain expTime e0 where "pemCertExpiration E certBytes = (expTime, e0)"
    by (cases "pemCertExpiration E certBytes")
  with assms show ?thesis
    by (simp add: renewCerts_def loadCert_def collaborator_defs Let_def)
qed

lemma renewCerts_proceeds:
  assumes "readFault E (Join certsDir ''public.crt'') = None"
      and "disk w (Join certsDir ''public.crt'') = Some certBytes"
      and "\<not> renewDaysLimit < daysUntilExpiry (fst (pemCertExpiration E certBytes)) (clock E)"
  shows "\<exists>rest. emitted w (snd (renewCerts E certsDir email w)) =
           [EvReadFile (Join certsDir ''public.crt''), EvNow, EvGenerateKey rsaKeySize] @ rest"
proof -
  let ?em = "emitted w (snd (renewCerts E certsDir email w))"
  let ?P = "[EvReadFile (Join certsDir ''public.crt''), EvNow, EvGenerateKey rsaKeySize]"
  obtain k e1 where k: "rsaGenerateKey E rsaKeySize = (k, e1)" by (cases "rsaGenerateKey E rsaKeySize")
  obtain expTime e0 where x: "pemCertExpiration E certBytes = (expTime, e0)"
    by (cases "pemCertExpiration E certBytes")
  note defs = renewCerts_def loadCert_def loadCertMeta_def collaborator_defs Let_def emitted_def
    newUser_def clientOf_def
  consider (key) "e1 \<noteq> None"
    | (client) "e1 = None" "acmeNewClient E (acmeServer E) (newUser email k) RSA2048 \<noteq> None"
    | (rest) "e1 = None" "acmeNewClient E (acmeServer E) (newUser email k) RSA2048 = None"
    by blast
  then show ?thesis
  proof cases
    case key
    with k x assms have "?em = ?P @ []" by (auto simp: defs)
    then show ?thesis ..
  next
    case client
    with k x assms have "?em = ?P @ [EvNewClient (acmeServer E) email RSA2048]" by (auto simp: defs)
    then show ?thesis ..
  next
    case rest
    with k x assms have "take 3 ?em = ?P"
      by (auto simp: defs split: option.splits prod.splits)
    then have "?em = ?P @ drop 3 ?em"
      by (metis append_take_drop_id)
    then show ?thesis ..
  qed
qed

lemma renewCerts_exchange:
  assumes "readFault E (Join certsDir ''public.crt'') = None"
      and "disk w (Join certsDir ''public.crt'') = Some certBytes"
      and "\<not> renewDaysLimit < daysUntilExpiry (fst (pemCertExpiration E certBytes)) (clock E)"
      and "rsaGenerateKey E rsaKeySize = (k, None)"
      and "acmeNewClient E (acmeServer E) (newUser email k) RSA2048 = None"
      and "readFault E (Join certsDir ''certs.json'') = None"
      and "disk w (Join certsDir ''certs.json'') = Some metaBytes"
      and "jsonUnmarshal E metaBytes = (certMeta, None)"
  shows "renewCerts E certsDir email w =
     ((case caRenewCertificate E (clientOf E email k None)
              (certMeta\<lparr>Certificate := certBytes\<rparr>) True of
         (newCertificates, Some err) \<Rightarrow> (emptyResource, Some err)
       | (newCertificates, None) \<Rightarrow> (newCertificates, None)),
      w\<lparr>trace := trace w @
        [EvReadFile (Join certsDir ''public.crt''), EvNow, EvGenerateKey rsaKeySize,
         EvNewClient (acmeServer E) email RSA2048, EvReadFile (Join certsDir ''certs.json''),
         EvRenewCertificate (certMeta\<lparr>Certificate := certBytes\<rparr>) True]\<rparr>)"
proof -
  obtain expTime e0 where "pemCertExpiration E certBytes = (expTime, e0)"
    by (cases "pemCertExpiration E certBytes")
  with assms show ?thesis
    by (simp add: renewCerts_def loadCert_def loadCertMeta_def collaborator_defs Let_def
       newUser_def clientOf_def split: prod.splits option.splits)
qed


lemma renewCerts_events:
  "\<exists>n certMeta. emitted w (snd (renewCerts E certsDir email w)) =
     take n [EvReadFile (Join certsDir ''public.crt''), EvNow, EvGenerateKey rsaKeySize,
             EvNewClient (acmeServer E) email RSA2048, EvReadFile (Join certsDir ''certs.json''),
             EvRenewCertificate certMeta True]"
proof -
  let ?F = "\<lambda>certMeta. [EvReadFile (Join certsDir ''public.crt''), EvNow, EvGenerateKey rsaKeySize,
             EvNewClient (acmeServer E) email RSA2048, EvReadFile (Join certsDir ''certs.json''),
             EvRenewCertificate certMeta True]"
  let ?em = "emitted w (snd (renewCerts E certsDir email w))"
  obtain certBytes e0 w1 where l: "loadCert E certsDir w = ((certBytes, e0), w1)"
    by (metis surj_pair)
  then have w1: "w1 = w\<lparr>trace := trace w @ [EvReadFile (Join certsDir ''public.crt'')]\<rparr>"
    by (auto simp: loadCert_def collaborator_defs Let_def split: option.splits)
  obtain expTime ex where x: "pemCertExpiration E certBytes = (expTime, ex)"
    by (cases "pemCertExpiration E certBytes")
  obtain k e1 where k: "rsaGenerateKey E rsaKeySize = (k, e1)" by (cases "rsaGenerateKey E rsaKeySize")
  note defs = renewCerts_def loadCertMeta_def collaborator_defs Let_def emitted_def
    newUser_def clientOf_def
  consider (load) "e0 \<noteq> None"
    | (gate) "e0 = None" "renewDaysLimit < daysUntilExpiry expTime (clock E)"
    | (key) "e0 = None" "\<not> renewDaysLimit < daysUntilExpiry expTime (clock E)" "e1 \<noteq> None"
    | (client) "e0 = None" "\<not> renewDaysLimit < daysUntilExpiry expTime (clock E)" "e1 = None"
        "acmeNewClient E (acmeServer E) (newUser email k) RSA2048 \<noteq> None"
    | (rest) "e0 = None" "\<not> renewDaysLimit < daysUntilExpiry expTime (clock E)" "e1 = None"
        "acmeNewClient E (acmeServer E) (newUser email k) RSA2048 = None"
    by blast
  then show ?thesis
  proof cases
    case load
    with l w1 have "?em = take 1 (?F emptyResource)" by (auto simp: defs)
    then show ?thesis by blast
  next
    case gate
    with l w1 x have "?em = take 2 (?F emptyResource)" by (auto simp: defs)
    then show ?thesis by blast
  next
    case key
    with l w1 x k have "?em = take 3 (?F emptyResource)" by (auto simp: defs)
    then show ?thesis by blast
  next
    case client
    with l w1 x k have "?em = take 4 (?F emptyResource)" by (auto simp: defs)
    then show ?thesis by blast
  next
    case rest
    with l w1 x k have "?em = take 5 (?F emptyResource) \<or> (\<exists>cm. ?em = take 6 (?F cm))"
      by (auto simp: defs split: option.splits prod.splits)
    then show ?thesis by blast
  qed
qed

lemma renewCerts_never_registers:
  "EvRegister \<notin> set (emitted w (snd (renewCerts E certsDir email w))) \<and>
   EvAgreeToTOS \<notin> set (emitted w (snd (renewCerts E certsDir email w)))"
proof -
  from renewCerts_events [of w E certsDir email] obtain n certMeta where
    "emitted w (snd (renewCerts E certsDir email w)) =
     take n [EvReadFile (Join certsDir ''public.crt''), EvNow, EvGenerateKey rsaKeySize,
             EvNewClient (acmeServer E) email RSA2048, EvReadFile (Join certsDir ''certs.json''),
             EvRenewCertificate certMeta True]" by blast
  then have "set (emitted w (snd (renewCerts E certsDir email w))) \<subseteq>
     set [EvReadFile (Join certsDir ''public.crt''), EvNow, EvGenerateKey rsaKeySize,
             EvNewClient (acmeServer E) email RSA2048, EvReadFile (Join certsDir ''certs.json''),
             EvRenewCertificate certMeta True]"
    by (simp only: set_take_subset)
  then show ?thesis by auto
qed

subsection \<open>Rounding to binary64 is monotone and exact on binary64 numbers\<close>

lemma roundHalfEven_ge_floor: "\<lfloor>x\<rfloor> \<le> roundHalfEven x"
  by (simp add: roundHalfEven_def Let_def)

lemma roundHalfEven_le_floor: "roundHalfEven x \<le> \<lfloor>x\<rfloor> + 1"
  by (simp add: roundHalfEven_def Let_def)

lemma roundHalfEven_of_int: "roundHalfEven (of_int n) = n"
  by (simp add: roundHalfEven_def Let_def)

lemma roundHalfEven_mono: "x \<le> y \<Longrightarrow> roundHalfEven x \<le> roundHalfEven y"
proof (cases "\<lfloor>x\<rfloor> = \<lfloor>y\<rfloor>")
  case True
  assume "x \<le> y"
  with True show ?thesis
    by (auto simp: roundHalfEven_def Let_def)
next
  case False
  assume "x \<le> y"
  then have "\<lfloor>x\<rfloor> \<le> \<lfloor>y\<rfloor>" by (rule floor_mono)
  with False have "\<lfloor>x\<rfloor> + 1 \<le> \<lfloor>y\<rfloor>" by simp
  with roundHalfEven_le_floor [of x] roundHalfEven_ge_floor [of y] show ?thesis by linarith
qed

lemma pow2_less_iff: "(2::rat) powi m < 2 powi n \<longleftrightarrow> m < n"
proof
  assume "(2::rat) powi m < 2 powi n"
  show "m < n"
  proof (rule ccontr)
    assume "\<not> m < n"
    then have "(2::rat) powi n \<le> 2 powi m" by (intro power_int_increasing) simp_all
    with \<open>(2::rat) powi m < 2 powi n\<close> show False by simp
  qed
next
  assume "m < n"
  then show "(2::rat) powi m < 2 powi n" by (intro power_int_strict_increasing) simp_all
qed

lemma pow2_le_iff: "(2::rat) powi m \<le> 2 powi n \<longleftrightarrow> m \<le> n"
  using pow2_less_iff [of n m] by (auto simp: not_less [symmetric])

lemma pow2_pos: "0 < (2::rat) powi n"
  by (simp add: zero_less_power_int)

lemma ilog2_bounds:
  assumes "0 < x"
  shows "2 powi (ilog2 x) \<le> x \<and> x < 2 powi (ilog2 x + 1)"
proof (cases "1 \<le> x")
  case True
  let ?n = "nat \<lfloor>x\<rfloor>"
  let ?fl = "floorlog 2 ?n"
  from True have n: "0 < ?n" by simp
  from floorlog_bounds [OF n, of 2] have b: "2 ^ (?fl - 1) \<le> ?n" "?n < 2 ^ ?fl" by simp_all
  from n have fl: "0 < ?fl" by (simp add: floorlog_eq_zero_iff [THEN iffD1, THEN contrapos_pp] floorlog_def)
  have e: "ilog2 x = int ?fl - 1" using True by (simp add: ilog2_def)
  have "(2::rat) powi (ilog2 x) = 2 ^ (?fl - 1)"
    using fl e by (simp add: power_int_def of_nat_diff nat_diff_distrib)
  also have "\<dots> \<le> of_nat ?n"
    using b(1) by (metis of_nat_le_iff of_nat_numeral of_nat_power)
  also have "\<dots> = of_int \<lfloor>x\<rfloor>" using True by simp
  also have "\<dots> \<le> x" by simp
  finally have lo: "2 powi (ilog2 x) \<le> x" .
  have "x < of_int \<lfloor>x\<rfloor> + 1" by linarith
  also have "\<dots> = of_nat (?n + 1)" using True by simp
  also have "\<dots> \<le> of_nat (2 ^ ?fl)" using b(2) by (simp only: of_nat_le_iff)
  also have "\<dots> = 2 powi (int ?fl)" by simp
  finally have "x < 2 powi (ilog2 x + 1)" using e by simp
  with lo show ?thesis ..
next
  case False
  with assms have x: "0 < x" "x < 1" by simp_all
  let ?c = "\<lceil>1 / x\<rceil>"
  let ?n = "nat (?c - 1)"
  let ?fl = "floorlog 2 ?n"
  from x have y: "1 < 1 / x" by simp
  then have c: "2 \<le> ?c" by (simp add: le_ceiling_iff)
  then have n: "0 < ?n" by simp
  from c have "0 \<le> ?c - 1" by linarith
  then have cn: "(of_nat ?n :: rat) = of_int (?c - 1)" by (rule of_nat_nat)
  from floorlog_bounds [OF n, of 2] have b: "2 ^ (?fl - 1) \<le> ?n" "?n < 2 ^ ?fl" by simp_all
  have e: "ilog2 x = - int ?fl" using False by (simp add: ilog2_def)
  have "1 / x \<le> of_int ?c" by simp
  also have "\<dots> = of_nat (?n + 1)" by (simp add: cn)
  also have "\<dots> \<le> of_nat (2 ^ ?fl)" using b(2) by (simp only: of_nat_le_iff)
  finally have "1 / x \<le> 2 ^ ?fl" by simp
  then have "1 / 2 ^ ?fl \<le> x" using x(1)
    by (simp add: field_simps)
  then have lo: "2 powi (ilog2 x) \<le> x" using e by (simp add: power_int_minus field_simps)
  have "(2::rat) ^ (?fl - 1) \<le> of_nat ?n"
    using b(1) by (metis of_nat_le_iff of_nat_numeral of_nat_power)
  also have "\<dots> = of_int (?c - 1)" by (rule cn)
  also have "\<dots> < 1 / x" by linarith
  finally have "(2::rat) ^ (?fl - 1) < 1 / x" .
  then have "x < 1 / 2 ^ (?fl - 1)" using x(1) by (simp add: field_simps)
  moreover have "0 < ?fl" using n by (simp add: floorlog_def)
  then have "(2::rat) powi (- int ?fl + 1) = 1 / 2 ^ (?fl - 1)"
    by (simp add: power_int_def nat_diff_distrib field_simps)
  ultimately have "x < 2 powi (ilog2 x + 1)" using e by simp
  with lo show ?thesis ..
qed


lemma ilog2_unique:
  assumes "0 < x" "2 powi e \<le> x" "x < 2 powi (e + 1)"
  shows "ilog2 x = e"
proof -
  from ilog2_bounds [OF assms(1)] have b: "2 powi (ilog2 x) \<le> x" "x < 2 powi (ilog2 x + 1)"
    by simp_all
  from b(1) assms(3) have "(2::rat) powi (ilog2 x) < 2 powi (e + 1)" by simp
  then have "ilog2 x < e + 1" by (simp only: pow2_less_iff)
  moreover from assms(2) b(2) have "(2::rat) powi e < 2 powi (ilog2 x + 1)" by simp
  then have "e < ilog2 x + 1" by (simp only: pow2_less_iff)
  ultimately show ?thesis by simp
qed

lemma ilog2_mono:
  assumes "0 < x" "x \<le> y"
  shows "ilog2 x \<le> ilog2 y"
proof -
  from assms have y: "0 < y" by simp
  from ilog2_bounds [OF assms(1)] ilog2_bounds [OF y] assms(2)
  have "(2::rat) powi (ilog2 x) < 2 powi (ilog2 y + 1)" by linarith
  then have "ilog2 x < ilog2 y + 1" by (simp only: pow2_less_iff)
  then show ?thesis by simp
qed

lemma float64_pos:
  "0 < x \<Longrightarrow>
   float64 x = of_int (roundHalfEven (x / 2 powi (ilog2 x - 52))) * 2 powi (ilog2 x - 52)"
  by (simp add: float64_def Let_def)

lemma float64_minus: "float64 (- x) = - float64 x"
  by (simp add: float64_def Let_def)

lemma float64_zero: "float64 0 = 0"
  by (simp add: float64_def)

lemma pow2_split: "(2::rat) powi e = 2 powi j * 2 powi (e - j)"
  by (simp add: power_int_add [symmetric])

lemma float64_bounds:
  assumes "0 < x"
  shows "2 powi (ilog2 x) \<le> float64 x \<and> float64 x \<le> 2 powi (ilog2 x + 1)"
proof -
  let ?e = "ilog2 x"
  let ?u = "(2::rat) powi (?e - 52)"
  have u: "0 < ?u" by (rule pow2_pos)
  from ilog2_bounds [OF assms] have b: "2 powi ?e \<le> x" "x < 2 powi (?e + 1)" by simp_all
  have lo: "(2::rat) powi ?e = of_int (2 ^ 52) * ?u"
    using pow2_split [of ?e 52] by simp
  have hi: "(2::rat) powi (?e + 1) = of_int (2 ^ 53) * ?u"
    using pow2_split [of "?e + 1" 53] by simp
  from b(1) lo u have "of_int (2 ^ 52) \<le> x / ?u" by (simp add: pos_le_divide_eq)
  then have "roundHalfEven (of_int (2 ^ 52)) \<le> roundHalfEven (x / ?u)"
    by (rule roundHalfEven_mono)
  then have "(of_int (2 ^ 52) :: rat) \<le> of_int (roundHalfEven (x / ?u))"
    by (simp only: roundHalfEven_of_int of_int_le_iff)
  with u have "of_int (2 ^ 52) * ?u \<le> of_int (roundHalfEven (x / ?u)) * ?u"
    by (simp only: mult_le_cancel_right_pos)
  then have l: "2 powi ?e \<le> float64 x" by (simp only: lo float64_pos [OF assms])
  from b(2) hi u have "x / ?u \<le> of_int (2 ^ 53)" by (simp add: pos_divide_le_eq)
  then have "roundHalfEven (x / ?u) \<le> roundHalfEven (of_int (2 ^ 53))"
    by (rule roundHalfEven_mono)
  then have "(of_int (roundHalfEven (x / ?u)) :: rat) \<le> of_int (2 ^ 53)"
    by (simp only: roundHalfEven_of_int of_int_le_iff)
  with u have "of_int (roundHalfEven (x / ?u)) * ?u \<le> of_int (2 ^ 53) * ?u"
    by (simp only: mult_le_cancel_right_pos)
  then have "float64 x \<le> 2 powi (?e + 1)" by (simp only: hi float64_pos [OF assms])
  with l show ?thesis ..
qed

lemma float64_mono_pos:
  assumes "0 < x" "x \<le> y"
  shows "float64 x \<le> float64 y"
proof (cases "ilog2 x = ilog2 y")
  case True
  from assms have y: "0 < y" by simp
  let ?u = "(2::rat) powi (ilog2 y - 52)"
  have u: "0 < ?u" by (rule pow2_pos)
  with assms(2) have "x / ?u \<le> y / ?u" by (simp add: divide_right_mono)
  then have "roundHalfEven (x / ?u) \<le> roundHalfEven (y / ?u)" by (rule roundHalfEven_mono)
  then have "(of_int (roundHalfEven (x / ?u)) :: rat) * ?u \<le> of_int (roundHalfEven (y / ?u)) * ?u"
    using u by (simp only: mult_le_cancel_right_pos of_int_le_iff)
  then show ?thesis by (simp only: float64_pos [OF assms(1)] float64_pos [OF y] True)
next
  case False
  from assms have y: "0 < y" by simp
  from ilog2_mono [OF assms] False have "ilog2 x + 1 \<le> ilog2 y" by simp
  then have "(2::rat) powi (ilog2 x + 1) \<le> 2 powi (ilog2 y)" by (simp only: pow2_le_iff)
  with float64_bounds [OF assms(1)] float64_bounds [OF y] show ?thesis by linarith
qed

lemma float64_nonneg: "0 \<le> x \<Longrightarrow> 0 \<le> float64 x"
proof (cases "x = 0")
  case True
  then show ?thesis by (simp add: float64_zero)
next
  case False
  assume "0 \<le> x"
  with False have "0 < x" by simp
  from float64_bounds [OF this] pow2_pos [of "ilog2 x"] show ?thesis by linarith
qed

lemma float64_mono:
  assumes "x \<le> y"
  shows "float64 x \<le> float64 y"
proof -
  consider (pos) "0 < x" | (zero) "x = 0" | (neg) "x < 0" "y < 0" | (mixed) "x < 0" "0 \<le> y"
    by linarith
  then show ?thesis
  proof cases
    case pos
    then show ?thesis using assms by (rule float64_mono_pos)
  next
    case zero
    with assms float64_nonneg [of y] show ?thesis by (simp add: float64_zero)
  next
    case neg
    then have "0 < - y" "- y \<le> - x" using assms by simp_all
    then have "float64 (- y) \<le> float64 (- x)" by (rule float64_mono_pos)
    then show ?thesis by (simp add: float64_minus)
  next
    case mixed
    then have "0 \<le> float64 (- x)" by (intro float64_nonneg) simp
    then have "float64 x \<le> 0" by (simp add: float64_minus)
    with float64_nonneg [OF mixed(2)] show ?thesis by linarith
  qed
qed

lemma float64_exact_pos:
  assumes "0 < m" "m < 2 ^ 53"
  shows "float64 (of_int m * 2 powi k) = of_int m * 2 powi k"
proof -
  let ?x = "of_int m * (2::rat) powi k"
  have x: "0 < ?x" using assms(1) pow2_pos [of k] by simp
  let ?e = "ilog2 ?x"
  from ilog2_bounds [OF x] have "2 powi ?e \<le> ?x" by simp
  also have "?x < of_int (2 ^ 53) * 2 powi k"
    using assms(2) pow2_pos [of k] by (simp only: mult_less_cancel_right_pos of_int_less_iff)
  also have "\<dots> = 2 powi (k + 53)"
    using pow2_split [of "k + 53" 53] by simp
  finally have "?e < k + 53" by (simp only: pow2_less_iff)
  then have j: "0 \<le> k - ?e + 52" by simp
  have "?x / 2 powi (?e - 52) = of_int m * (2 powi k / 2 powi (?e - 52))" by simp
  also have "2 powi k / (2::rat) powi (?e - 52) = 2 powi (k - ?e + 52)"
    by (simp add: power_int_diff [symmetric] algebra_simps)
  also have "\<dots> = of_int (2 ^ nat (k - ?e + 52))"
    using j by (simp add: power_int_def)
  finally have "?x / 2 powi (?e - 52) = of_int (m * 2 ^ nat (k - ?e + 52))" by simp
  then have "roundHalfEven (?x / 2 powi (?e - 52)) = m * 2 ^ nat (k - ?e + 52)"
    by (simp only: roundHalfEven_of_int)
  then have "float64 ?x = of_int (m * 2 ^ nat (k - ?e + 52)) * 2 powi (?e - 52)"
    by (simp only: float64_pos [OF x])
  also have "\<dots> = of_int m * (2 powi (k - ?e + 52) * 2 powi (?e - 52))"
    using j by (simp add: power_int_def)
  also have "2 powi (k - ?e + 52) * (2::rat) powi (?e - 52) = 2 powi k"
    by (simp add: power_int_add [symmetric])
  finally show ?thesis .
qed

lemma float64_exact:
  assumes "\<bar>m\<bar> < 2 ^ 53"
  shows "float64 (of_int m * 2 powi k) = of_int m * 2 powi k"
proof -
  consider "0 < m" | "m = 0" | "m < 0" by linarith
  then show ?thesis
  proof cases
    case 1
    with assms show ?thesis by (intro float64_exact_pos) simp_all
  next
    case 2
    then show ?thesis by (simp add: float64_zero)
  next
    case 3
    with assms have "float64 (of_int (- m) * 2 powi k) = of_int (- m) * 2 powi k"
      by (intro float64_exact_pos) simp_all
    then show ?thesis using float64_minus [of "of_int m * 2 powi k"] by simp
  qed
qed

lemma float64_of_int: "\<bar>m\<bar> < 2 ^ 53 \<Longrightarrow> float64 (of_int m) = of_int m"
  using float64_exact [of m 0] by simp

subsection \<open>Bounds on the hours and on the day count\<close>

lemma toInt_mono: "x \<le> y \<Longrightarrow> toInt x \<le> toInt y"
  unfolding toInt_def
  by (auto simp: floor_mono ceiling_mono intro: order_trans [of "\<lceil>x\<rceil>" 0 "\<lfloor>y\<rfloor>"])

lemma toInt_of_int: "toInt (of_int n) = n"
  by (simp add: toInt_def)

lemma toInt_minus: "toInt (- x) = - toInt x"
  by (auto simp: toInt_def ceiling_minus floor_minus)

lemma toInt_less: "x < of_int k + 1 \<Longrightarrow> 0 \<le> k \<Longrightarrow> toInt x \<le> k"
  unfolding toInt_def by (auto simp: floor_le_iff intro: order_trans [of "\<lceil>x\<rceil>" 0 k])

lemma Hours_minus: "Hours (- d) = - Hours d"
proof -
  have "Hours (- d) =
      float64 (- (float64 (of_int (d sdiv Hour))
        + float64 (float64 (of_int (d smod Hour)) / (60 * 60 * 1000000000))))"
    by (simp add: Hours_def Let_def float64_minus)
  then show ?thesis
    by (simp only: float64_minus Hours_def Let_def)
qed

lemma le_div_iff_int: "0 < b \<Longrightarrow> k \<le> a div b \<longleftrightarrow> k * b \<le> a" for a b k :: int
proof
  assume b: "0 < b" and k: "k \<le> a div b"
  then have "k * b \<le> (a div b) * b" by (simp add: mult_right_mono)
  also have "\<dots> \<le> a" using b
    by (metis div_mult_mod_eq le_add_same_cancel1 pos_mod_sign)
  finally show "k * b \<le> a" .
next
  assume b: "0 < b" and "k * b \<le> a"
  then have "(k * b) div b \<le> a div b" using zdiv_mono1 [of "k * b" a b] by simp
  with b show "k \<le> a div b" by simp
qed

lemma daysOf_minus: "daysOf (- d) = - daysOf d"
  by (simp add: daysOf_def Hours_minus float64_minus toInt_minus)

lemma sdiv_smod_nonneg:
  assumes "0 \<le> d"
  shows "d sdiv Hour = d div Hour" "d smod Hour = d mod Hour"
  using assms by (simp_all add: signed_divide_int_def signed_modulo_int_def sgn_if Hour_def)

lemma Hours_lower:
  assumes "0 \<le> h" "h * Hour \<le> d" "h < 2 ^ 53"
  shows "of_int h \<le> Hours d"
proof -
  have H: "0 < Hour" by (simp add: Hour_def)
  from assms(1) H have "0 \<le> h * Hour" by simp
  with assms(2) have d: "0 \<le> d" by simp
  from assms(2) H have "h \<le> d div Hour"
    by (simp add: le_div_iff_int)
  then have "float64 (of_int h) \<le> float64 (of_int (d div Hour))"
    by (intro float64_mono) simp
  moreover have "float64 (of_int h) = of_int h"
    using assms by (intro float64_of_int) simp
  moreover have "0 \<le> float64 (float64 (of_int (d mod Hour)) / (60 * 60 * 1000000000))"
    using H by (intro float64_nonneg divide_nonneg_nonneg) simp_all
  ultimately have "of_int h \<le>
      float64 (of_int (d div Hour)) + float64 (float64 (of_int (d mod Hour)) / (60 * 60 * 1000000000))"
    by linarith
  then have "float64 (of_int h) \<le> float64 (float64 (of_int (d div Hour))
      + float64 (float64 (of_int (d mod Hour)) / (60 * 60 * 1000000000)))"
    by (rule float64_mono)
  then show ?thesis
    using \<open>float64 (of_int h) = of_int h\<close> by (simp add: Hours_def Let_def sdiv_smod_nonneg [OF d])
qed

lemma Hours_upper:
  assumes "0 \<le> d" "d \<le> h * Hour + n" "0 \<le> n" "n < Hour" "0 \<le> h" "h < 2 ^ 53"
    and B: "float64 (float64 (of_int n) / (60 * 60 * 1000000000)) \<le> B"
  shows "Hours d \<le> float64 (of_int h + B)"
proof -
  let ?c = "60 * 60 * 1000000000 :: rat"
  have H: "0 < Hour" by (simp add: Hour_def)
  have c: "of_int Hour = ?c" by (simp add: Hour_def)
  let ?q = "d div Hour" and ?r = "d mod Hour"
  have r: "0 \<le> ?r" "?r < Hour" using H by simp_all
  have q: "0 \<le> ?q" using assms(1) H by (simp add: pos_imp_zdiv_nonneg_iff)
  have qh: "?q \<le> h"
  proof -
    from assms(2,4) have "d < (h + 1) * Hour" by (simp add: algebra_simps)
    then have "\<not> h + 1 \<le> d div Hour" using H by (simp add: le_div_iff_int)
    then show ?thesis by simp
  qed
  have fh: "float64 (of_int h) = of_int h" using assms by (intro float64_of_int) simp
  have fq: "float64 (of_int ?q) = of_int ?q" using q qh assms by (intro float64_of_int) simp
  have B0: "0 \<le> B"
  proof -
    have "0 \<le> float64 (float64 (of_int n) / ?c)"
      using assms(3) by (intro float64_nonneg divide_nonneg_nonneg) simp_all
    with B show ?thesis by simp
  qed
  have "of_int ?q + float64 (float64 (of_int ?r) / ?c) \<le> of_int h + B"
  proof (cases "?q = h")
    case True
    have "d = ?q * Hour + ?r" by simp
    with True assms(2) have "?r \<le> n" by simp
    then have "float64 (of_int ?r) \<le> float64 (of_int n)" by (intro float64_mono) simp
    then have "float64 (of_int ?r) / ?c \<le> float64 (of_int n) / ?c"
      by (simp add: divide_right_mono)
    then have "float64 (float64 (of_int ?r) / ?c) \<le> float64 (float64 (of_int n) / ?c)"
      by (rule float64_mono)
    with B True show ?thesis by simp
  next
    case False
    with qh have "?q + 1 \<le> h" by simp
    then have qq: "(of_int ?q :: rat) + 1 \<le> of_int h"
      by (metis of_int_1 of_int_add of_int_le_iff)
    have "\<bar>?r\<bar> < 2 ^ 53" using r by (simp add: Hour_def)
    then have "float64 (of_int ?r) = of_int ?r" by (rule float64_of_int)
    moreover have "(of_int ?r :: rat) \<le> ?c" using r(2) c
      by (metis less_imp_le of_int_le_iff)
    ultimately have "float64 (of_int ?r) / ?c \<le> 1" by simp
    then have "float64 (float64 (of_int ?r) / ?c) \<le> float64 1" by (rule float64_mono)
    moreover have "float64 1 = 1" using float64_of_int [of 1] by simp
    ultimately show ?thesis using qq B0 by linarith
  qed
  then have "float64 (of_int ?q + float64 (float64 (of_int ?r) / ?c)) \<le> float64 (of_int h + B)"
    by (rule float64_mono)
  then show ?thesis
    by (simp add: Hours_def Let_def sdiv_smod_nonneg [OF assms(1)] fq)
qed

lemma float64_dyadic: "\<bar>m\<bar> < 2 ^ 53 \<Longrightarrow> float64 (of_int m / 2 ^ k) = of_int m / 2 ^ k"
  using float64_exact [of m "- int k"] by (simp add: power_int_minus field_simps)

lemma daysOf_lower:
  assumes "0 \<le> k" "k * Day \<le> d" "k < 2 ^ 40"
  shows "k \<le> daysOf d"
proof -
  have "(24 * k) * Hour \<le> d" using assms(2) by (simp add: Day_def)
  moreover have "24 * k < 2 ^ 53" using assms(3) by simp
  ultimately have "of_int (24 * k) \<le> Hours d" using assms(1) by (intro Hours_lower) simp_all
  then have "of_int k \<le> Hours d / 24" by simp
  then have "float64 (of_int k) \<le> float64 (Hours d / 24)" by (rule float64_mono)
  moreover have "float64 (of_int k) = of_int k" using assms by (intro float64_of_int) simp
  ultimately have "toInt (of_int k) \<le> toInt (float64 (Hours d / 24))"
    by (intro toInt_mono) simp
  then show ?thesis by (simp add: daysOf_def toInt_of_int)
qed

lemma daysOf_upper:
  assumes "0 \<le> d" "d \<le> k * Day + 23 * Hour + 3150000000000" "0 \<le> k" "k < 2 ^ 40"
  shows "daysOf d \<le> k"
proof -
  have n: "float64 3150000000000 = 3150000000000"
    using float64_of_int [of 3150000000000] by simp
  have q: "(3150000000000 :: rat) / (60 * 60 * 1000000000) = 7 / 8" by simp
  have f: "float64 (7 / 8) = 7 / 8" using float64_dyadic [of 7 3] by simp
  have B: "float64 (float64 (of_int 3150000000000) / (60 * 60 * 1000000000)) \<le> 7 / 8"
    unfolding of_int_numeral n q f by simp
  have "Hours d \<le> float64 (of_int (24 * k + 23) + 7 / 8)"
    using assms by (intro Hours_upper [where n = 3150000000000] B) (simp_all add: Day_def Hour_def)
  also have "of_int (24 * k + 23) + 7 / 8 = (of_int (192 * k + 191) :: rat) / 2 ^ 3" by simp
  also have "float64 \<dots> = of_int (192 * k + 191) / 2 ^ 3"
    using assms by (intro float64_dyadic) simp
  finally have "Hours d / 24 \<le> of_int (192 * k + 191) / 2 ^ 3 / 24" by (simp add: divide_right_mono)
  also have "\<dots> \<le> of_int (256 * k + 255) / 2 ^ 8" by (simp add: field_simps)
  finally have "float64 (Hours d / 24) \<le> float64 (of_int (256 * k + 255) / 2 ^ 8)"
    by (rule float64_mono)
  also have "\<dots> = of_int (256 * k + 255) / 2 ^ 8"
    using assms by (intro float64_dyadic) simp
  also have "\<dots> < of_int k + 1" by (simp add: field_simps)
  finally show ?thesis using assms(3) unfolding daysOf_def by (intro toInt_less)
qed

lemma daysOf_interior:
  assumes "0 \<le> k" "k < 2 ^ 40" "k * Day \<le> d" "d \<le> k * Day + 23 * Hour + 3150000000000"
  shows "daysOf d = k"
proof -
  have "0 \<le> k * Day" using assms(1) by (simp add: Day_def Hour_def)
  with assms(3) have "0 \<le> d" by simp
  with assms daysOf_upper [of d k] daysOf_lower [of k d] show ?thesis by simp
qed

lemma daysOf_below_46:
  assumes "d < 46 * Day"
  shows "daysOf d \<le> 45"
proof (cases "d < 0")
  case True
  then have "0 \<le> daysOf (- d)" by (intro daysOf_lower) simp_all
  then show ?thesis by (simp add: daysOf_minus)
next
  case False
  then have d: "0 \<le> d" by simp
  have n: "float64 3599999999999 = 3599999999999"
    using float64_of_int [of 3599999999999] by simp
  have "float64 (3599999999999 / (60 * 60 * 1000000000))
      \<le> float64 (of_int (2 ^ 42 - 1) / 2 ^ 42)"
    by (intro float64_mono) simp
  also have "\<dots> = of_int (2 ^ 42 - 1) / 2 ^ 42" by (intro float64_dyadic) simp
  finally have B: "float64 (float64 (of_int 3599999999999) / (60 * 60 * 1000000000))
      \<le> of_int (2 ^ 42 - 1) / 2 ^ 42" unfolding of_int_numeral n .
  have "Hours d \<le> float64 (of_int 1103 + of_int (2 ^ 42 - 1) / 2 ^ 42)"
    using assms d by (intro Hours_upper [where n = 3599999999999] B) (simp_all add: Day_def Hour_def)
  also have "of_int 1103 + of_int (2 ^ 42 - 1) / 2 ^ 42 = (of_int (1104 * 2 ^ 42 - 1) :: rat) / 2 ^ 42"
    by simp
  also have "float64 \<dots> = of_int (1104 * 2 ^ 42 - 1) / 2 ^ 42"
    by (intro float64_dyadic) simp
  finally have "Hours d / 24 \<le> of_int (1104 * 2 ^ 42 - 1) / 2 ^ 42 / 24"
    by (simp add: divide_right_mono)
  also have "\<dots> \<le> of_int (46 * 2 ^ 47 - 1) / 2 ^ 47" by simp
  finally have "float64 (Hours d / 24) \<le> float64 (of_int (46 * 2 ^ 47 - 1) / 2 ^ 47)"
    by (rule float64_mono)
  also have "\<dots> = of_int (46 * 2 ^ 47 - 1) / 2 ^ 47" by (intro float64_dyadic) simp
  also have "\<dots> < of_int 45 + 1" by simp
  finally have "float64 (Hours d / 24) < of_int 45 + 1" .
  then show ?thesis unfolding daysOf_def by (rule toInt_less) simp
qed

lemma daysOf_gate: "46 \<le> daysOf d \<longleftrightarrow> 46 * Day \<le> d"
  using daysOf_below_46 [of d] daysOf_lower [of 46 d] by fastforce

lemma daysOf_45: "45 * Day \<le> d \<Longrightarrow> d < 46 * Day \<Longrightarrow> daysOf d = 45"
  using daysOf_below_46 [of d] daysOf_lower [of 45 d] by simp

lemma daysUntilExpiry_daysOf: "daysUntilExpiry expTime now = daysOf (Sub expTime now)"
  by (simp add: daysUntilExpiry_def daysOf_def)

lemma Day_pos: "0 < Day"
  by (simp add: Day_def Hour_def)

lemma Sub_sample: "0 \<le> d \<Longrightarrow> d \<le> 1000 * Day \<Longrightarrow> Sub (sampleNow + d) sampleNow = d"
  by (simp add: Sub_def minDuration_def maxDuration_def Day_def Hour_def)

lemma days_sample:
  assumes "0 \<le> k" "k * Day \<le> d" "d \<le> k * Day + 23 * Hour" "d \<le> 1000 * Day"
  shows "daysUntilExpiry (sampleNow + d) sampleNow = k"
proof -
  from assms(1) Day_pos have "0 \<le> k * Day" by simp
  with assms(2) have d: "0 \<le> d" by simp
  then have s: "Sub (sampleNow + d) sampleNow = d" using assms(4) by (rule Sub_sample)
  from assms(2,4) have "k * Day \<le> 1000 * Day" by simp
  then have "k \<le> 1000" using Day_pos mult_le_cancel_right_pos [of Day k 1000] by simp
  then have "k < 2 ^ 40" by simp
  with assms have "daysOf d = k" by (intro daysOf_interior) simp_all
  then show ?thesis by (simp add: daysUntilExpiry_daysOf s)
qed

lemma days_zeroTime: "daysUntilExpiry zeroTime sampleNow = - 106751"
proof -
  have s: "Sub zeroTime sampleNow = - (2 ^ 63)"
    by (simp add: Sub_def zeroTime_def sampleNow_def minDuration_def maxDuration_def)
  have "daysOf (2 ^ 63) = 106751"
    by (rule daysOf_interior) (simp_all add: Day_def Hour_def)
  then show ?thesis
    by (simp only: daysUntilExpiry_daysOf s daysOf_minus)
qed

lemma sample_simps:
  "readFault (sampleEnv d fs faults) p = None"
  "writeFault (sampleEnv d fs faults) = faults"
  "clock (sampleEnv d fs faults) = sampleNow"
  "acmeServer (sampleEnv d fs faults) = ''https://ca.example/directory''"
  "pemCertExpiration (sampleEnv d fs faults) ''CERT'' = (sampleNow + d, None)"
  "pemCertExpiration (sampleEnv d fs faults) ''garbage'' = (zeroTime, Some parseError)"
  "rsaGenerateKey (sampleEnv d fs faults) n = (RSAKey n ''KEY'', None)"
  "acmeNewClient (sampleEnv d fs faults) url u kt = None"
  "caRegister (sampleEnv d fs faults) c = (Registration_of ''https://ca.example/reg/1'', None)"
  "caAgreeToTOS (sampleEnv d fs faults) c = None"
  "caObtainCertificate (sampleEnv d fs faults) c ds b = (issuedCert, fs)"
  "caRenewCertificate (sampleEnv d fs faults) c res b = (issuedCert, None)"
  "jsonUnmarshal (sampleEnv d fs faults) bs = (sampleMeta, None)"
  "jsonMarshalIndent (sampleEnv d fs faults) res prefix indent = (''JSON'', None)"
  by (simp_all add: sampleEnv_def)

lemma sampleWorld_simps:
  "disk (sampleWorld certBytes) (Join ''certs'' ''public.crt'') = Some certBytes"
  "disk (sampleWorld certBytes) (Join ''certs'' ''certs.json'') = Some ''{}''"
  "trace (sampleWorld certBytes) = []"
  by (simp_all add: sampleWorld_def)

section \<open>The claims\<close>

text \<open>
  C9. For every string, \<open>isSubDomain\<close> splits it on the dot and answers whether there are
  more than two labels: the split gives the labels of the name (dot-free strings that,
  joined by dots, are the name), the labels of a name are unique, and the answer is true
  exactly when their number exceeds 2. The function is total.
\<close>

theorem isSubDomain_label_count:
  "labelsOf domain (Split domain (CHR ''.'')) \<and>
   (\<forall>ls. labelsOf domain ls \<longrightarrow> (isSubDomain domain \<longleftrightarrow> 2 < length ls))"
  using labelsOf_Split [of domain] by (auto simp: isSubDomain_def dest: labelsOf_unique)

theorem isSubDomain_label_count_witness:
  "labelsOf ''a.b.c'' [''a'', ''b'', ''c''] \<and> isSubDomain ''a.b.c'' \<and>
   labelsOf ''a.b'' [''a'', ''b''] \<and> \<not> isSubDomain ''a.b'' \<and>
   labelsOf ''a'' [''a''] \<and> \<not> isSubDomain ''a''"
proof -
  have l3: "labelsOf ''a.b.c'' [''a'', ''b'', ''c'']" by (simp add: labelsOf_def)
  have l2: "labelsOf ''a.b'' [''a'', ''b'']" by (simp add: labelsOf_def)
  have l1: "labelsOf ''a'' [''a'']" by (simp add: labelsOf_def)
  have "isSubDomain ''a.b.c''"
    using isSubDomain_label_count [of "''a.b.c''"] l3 by fastforce
  moreover have "\<not> isSubDomain ''a.b''"
    using isSubDomain_label_count [of "''a.b''"] l2 by fastforce
  moreover have "\<not> isSubDomain ''a''"
    using isSubDomain_label_count [of "''a''"] l1 by fastforce
  ultimately show ?thesis using l1 l2 l3 by simp
qed

text \<open>
  C7. \<open>isValidDomain\<close> trims the surrounding white space and then answers false exactly
  when the trimmed string is empty, longer than 255, starts or ends with \<open>-\<close>, \<open>_\<close> or
  \<open>.\<close>, or holds a forbidden character, and true otherwise. It always returns: no slice
  of the code is taken out of range.
\<close>

theorem isValidDomain_contract:
  "isValidDomain host = Some (\<not> rejected_spec (TrimSpace host))"
proof (cases "TrimSpace host = []")
  case True
  then show ?thesis by (simp add: isValidDomain_def rejected_spec_def)
next
  case False
  then show ?thesis
    unfolding rejected_spec_def starts_edge ends_edge
    by (auto simp: isValidDomain_def Let_def endsOrStartsWith_eq ContainsAny_def list_ex_iff
        edgeChars_def split: bool.splits)
qed

theorem isValidDomain_contract_witness:
  "isValidDomain ''example.com'' = Some True \<and> isValidDomain ''-bad.com'' = Some False
   \<and> isValidDomain '' a.b '' = Some True \<and> isValidDomain ''a/b'' = Some False
   \<and> isValidDomain [] = Some False"
proof -
  have t: "TrimSpace ''example.com'' = ''example.com''" "TrimSpace ''-bad.com'' = ''-bad.com''"
    "TrimSpace '' a.b '' = ''a.b''" "TrimSpace ''a/b'' = ''a/b''" "TrimSpace [] = []"
    by code_simp+
  have "\<not> rejected_spec ''example.com''" "rejected_spec ''-bad.com''" "\<not> rejected_spec ''a.b''"
    "rejected_spec ''a/b''" "rejected_spec []"
    unfolding rejected_spec_def holds_forbidden starts_edge ends_edge
    by (simp_all add: edgeChars_def forbidden_def)
  then show ?thesis
    using isValidDomain_contract [of "''example.com''"] isValidDomain_contract [of "''-bad.com''"]
      isValidDomain_contract [of "'' a.b ''"] isValidDomain_contract [of "''a/b''"]
      isValidDomain_contract [of "[]"]
    by (simp add: t)
qed

text \<open>
  C6, as stated, fails: the length is taken after trimming, so a string of 256 bytes, the
  letter \<open>a\<close> followed by 255 blanks, is accepted.
\<close>

theorem isValidDomain_padded_counterexample:
  "255 < length (''a'' @ replicate 255 (CHR 0x20)) \<and>
   isValidDomain (''a'' @ replicate 255 (CHR 0x20)) = Some True"
proof -
  have "isValidDomain (''a'' @ replicate 255 (CHR 0x20)) = Some True"
    unfolding isValidDomain_def TrimSpace_padded
    by (simp add: endsOrStartsWith_def sliceFrom_def sliceTo_def ContainsAny_def forbidden_def)
  then show ?thesis by simp
qed

text \<open>
  C6, amended. A string whose trimmed form has length 0 or more than 255 is rejected; so
  is the empty string, and so is every string longer than 255 that neither starts nor ends
  with white space.
\<close>

theorem isValidDomain_trimmed_length:
  "(length (TrimSpace host) = 0 \<or> 255 < length (TrimSpace host) \<longrightarrow> isValidDomain host = Some False)
   \<and> (length host = 0 \<longrightarrow> isValidDomain host = Some False)
   \<and> (leadingSpace host = 0 \<and> trailingSpace host = 0 \<and> 255 < length host \<longrightarrow> isValidDomain host = Some False)"
proof -
  have "TrimSpace [] = []" by code_simp
  then show ?thesis
    by (auto simp: isValidDomain_def Let_def TrimSpace_id)
qed

theorem isValidDomain_trimmed_length_witness:
  "isValidDomain [] = Some False \<and> isValidDomain ''   '' = Some False
   \<and> 255 < length (''a'' @ replicate 254 (CHR ''a'') @ ''a'')
   \<and> isValidDomain (''a'' @ replicate 254 (CHR ''a'') @ ''a'') = Some False"
proof -
  have e: "length (TrimSpace ''   '') = 0" by code_simp
  have l: "leadingSpace (''a'' @ replicate 254 (CHR ''a'') @ ''a'') = 0"
    by (simp add: leadingSpace_letter)
  have r: "trailingSpace (''a'' @ replicate 254 (CHR ''a'') @ ''a'') = 0"
    by (simp add: trailingSpace_letter_Cons)
  show ?thesis
    using isValidDomain_trimmed_length [of "[]"] isValidDomain_trimmed_length [of "''   ''"]
      isValidDomain_trimmed_length [of "''a'' @ replicate 254 (CHR ''a'') @ ''a''"] e l r
    by simp
qed

text \<open>
  C3. When the certificate was loaded and the computed days until expiry exceed 45,
  \<open>renewCerts\<close> returns the "not yet due" error carrying that day count, and the only
  calls it has made are the read of the certificate and the reading of the clock: no key
  generation, no client construction, no exchange with the CA. When the days are 45 or
  fewer, it goes on to generate the key, and, when the key, the client and the stored
  metadata are obtained, it sends the bundled renewal request.
\<close>

theorem renewCerts_policy_gate:
  assumes "readFault E (Join certsDir ''public.crt'') = None"
      and "disk w (Join certsDir ''public.crt'') = Some certBytes"
  shows
    "(45 < daysUntilExpiry (fst (pemCertExpiration E certBytes)) (clock E) \<longrightarrow>
        renewCerts E certsDir email w =
          ((emptyResource,
            Some (Errorf notExpiredFormat
                   [ArgInt (daysUntilExpiry (fst (pemCertExpiration E certBytes)) (clock E))])),
           w\<lparr>trace := trace w @ [EvReadFile (Join certsDir ''public.crt''), EvNow]\<rparr>))
     \<and> (daysUntilExpiry (fst (pemCertExpiration E certBytes)) (clock E) \<le> 45 \<longrightarrow>
        (\<exists>rest. emitted w (snd (renewCerts E certsDir email w)) =
           [EvReadFile (Join certsDir ''public.crt''), EvNow, EvGenerateKey 2048] @ rest))
     \<and> (daysUntilExpiry (fst (pemCertExpiration E certBytes)) (clock E) \<le> 45
        \<and> rsaGenerateKey E 2048 = (k, None)
        \<and> acmeNewClient E (acmeServer E) (newUser email k) RSA2048 = None
        \<and> readFault E (Join certsDir ''certs.json'') = None
        \<and> disk w (Join certsDir ''certs.json'') = Some metaBytes
        \<and> jsonUnmarshal E metaBytes = (certMeta, None) \<longrightarrow>
        emitted w (snd (renewCerts E certsDir email w)) =
           [EvReadFile (Join certsDir ''public.crt''), EvNow, EvGenerateKey 2048,
            EvNewClient (acmeServer E) email RSA2048, EvReadFile (Join certsDir ''certs.json''),
            EvRenewCertificate (certMeta\<lparr>Certificate := certBytes\<rparr>) True])"
proof (intro conjI impI)
  assume "45 < daysUntilExpiry (fst (pemCertExpiration E certBytes)) (clock E)"
  then show "renewCerts E certsDir email w =
          ((emptyResource,
            Some (Errorf notExpiredFormat
                   [ArgInt (daysUntilExpiry (fst (pemCertExpiration E certBytes)) (clock E))])),
           w\<lparr>trace := trace w @ [EvReadFile (Join certsDir ''public.crt''), EvNow]\<rparr>)"
    using renewCerts_refuses [OF assms] by (simp add: renewDaysLimit_def)
next
  assume "daysUntilExpiry (fst (pemCertExpiration E certBytes)) (clock E) \<le> 45"
  then show "\<exists>rest. emitted w (snd (renewCerts E certsDir email w)) =
           [EvReadFile (Join certsDir ''public.crt''), EvNow, EvGenerateKey 2048] @ rest"
    using renewCerts_proceeds [OF assms] by (simp add: renewDaysLimit_def rsaKeySize_def)
next
  assume h: "daysUntilExpiry (fst (pemCertExpiration E certBytes)) (clock E) \<le> 45
        \<and> rsaGenerateKey E 2048 = (k, None)
        \<and> acmeNewClient E (acmeServer E) (newUser email k) RSA2048 = None
        \<and> readFault E (Join certsDir ''certs.json'') = None
        \<and> disk w (Join certsDir ''certs.json'') = Some metaBytes
        \<and> jsonUnmarshal E metaBytes = (certMeta, None)"
  then show "emitted w (snd (renewCerts E certsDir email w)) =
           [EvReadFile (Join certsDir ''public.crt''), EvNow, EvGenerateKey 2048,
            EvNewClient (acmeServer E) email RSA2048, EvReadFile (Join certsDir ''certs.json''),
            EvRenewCertificate (certMeta\<lparr>Certificate := certBytes\<rparr>) True]"
    using assms renewCerts_exchange [of E certsDir w certBytes k email metaBytes certMeta]
    by (simp add: renewDaysLimit_def rsaKeySize_def emitted_def)
qed

theorem renewCerts_policy_gate_witness:
  "renewCerts (sampleEnv (100 * Day) [] noFaults) ''certs'' ''admin@example.com''
      (sampleWorld ''CERT'') =
     ((emptyResource, Some (Errorf notExpiredFormat [ArgInt 100])),
      (sampleWorld ''CERT'')\<lparr>trace := [EvReadFile (Join ''certs'' ''public.crt''), EvNow]\<rparr>)
   \<and> emitted (sampleWorld ''CERT'')
        (snd (renewCerts (sampleEnv (10 * Day) [] noFaults) ''certs'' ''admin@example.com''
               (sampleWorld ''CERT''))) =
      [EvReadFile (Join ''certs'' ''public.crt''), EvNow, EvGenerateKey 2048,
       EvNewClient ''https://ca.example/directory'' ''admin@example.com'' RSA2048,
       EvReadFile (Join ''certs'' ''certs.json''),
       EvRenewCertificate (sampleMeta\<lparr>Certificate := ''CERT''\<rparr>) True]"
proof -
  have d100: "daysUntilExpiry (sampleNow + 100 * Day) sampleNow = 100"
    by (rule days_sample) (simp_all add: Day_def Hour_def)
  have d10: "daysUntilExpiry (sampleNow + 10 * Day) sampleNow = 10"
    by (rule days_sample) (simp_all add: Day_def Hour_def)
  show ?thesis
    using renewCerts_policy_gate [where E = "sampleEnv (100 * Day) [] noFaults"
        and certsDir = "''certs''" and w = "sampleWorld ''CERT''" and certBytes = "''CERT''"
        and email = "''admin@example.com''"]
      renewCerts_policy_gate [where E = "sampleEnv (10 * Day) [] noFaults"
        and certsDir = "''certs''" and w = "sampleWorld ''CERT''" and certBytes = "''CERT''"
        and email = "''admin@example.com''" and k = "RSAKey 2048 ''KEY''"
        and metaBytes = "''{}''" and certMeta = sampleMeta]
    by (simp add: sample_simps sampleWorld_simps d100 d10)
qed

text \<open>
  C4. When the account is set up and the CA reports a failure for at least one domain,
  \<open>genCerts\<close> returns the empty certificate resource, whatever resource the CA handed
  back, and one error whose arguments are the failed domains and, position by position,
  the cause of each.
\<close>

theorem genCerts_aggregate_failure:
  assumes "rsaGenerateKey E 2048 = (k, None)"
      and "acmeNewClient E (acmeServer E) (newUser email k) RSA2048 = None"
      and "caRegister E (clientOf E email k None) = (reg, None)"
      and "caAgreeToTOS E (clientOf E email k (Some reg)) = None"
      and "caObtainCertificate E (clientOf E email k (Some reg))
             (buildDomains domain subDomains) True = (res, failures)"
      and "failures \<noteq> []"
  shows "fst (genCerts E email domain subDomains w) =
     (emptyResource,
      Some (Errorf obtainFailedFormat
              [ArgStrings (map fst failures), ArgErrors (map snd failures)]))"
  using assms genCerts_exchange [of E k email reg domain subDomains res failures w]
  by (simp add: rsaKeySize_def)

theorem genCerts_aggregate_failure_witness:
  "fst (genCerts
         (sampleEnv 0 [(''www.example.com'', External ''connection refused''),
                       (''api.example.com'', External ''unauthorized'')] noFaults)
         ''admin@example.com'' ''example.com'' [''www'', ''api''] (sampleWorld [])) =
     (emptyResource,
      Some (Errorf obtainFailedFormat
              [ArgStrings [''www.example.com'', ''api.example.com''],
               ArgErrors [External ''connection refused'', External ''unauthorized'']]))"
  using genCerts_aggregate_failure [where
      E = "sampleEnv 0 [(''www.example.com'', External ''connection refused''),
                       (''api.example.com'', External ''unauthorized'')] noFaults"
      and email = "''admin@example.com''" and domain = "''example.com''"
      and subDomains = "[''www'', ''api'']" and w = "sampleWorld []"
      and k = "RSAKey 2048 ''KEY''" and reg = "Registration_of ''https://ca.example/reg/1''"
      and res = issuedCert
      and failures = "[(''www.example.com'', External ''connection refused''),
                       (''api.example.com'', External ''unauthorized'')]"]
  by (simp add: sample_simps)

text \<open>
  C5. The domains submitted by \<open>genCerts\<close>: the primary alone when it has more than two
  dot-separated labels, otherwise the primary followed by each subdomain joined to it by
  a dot, in the order of the list. Every issuance request that \<open>genCerts\<close> sends carries
  exactly these domains.
\<close>

theorem genCerts_domain_set:
  "buildDomains domain subDomains =
     (if 2 < length (Split domain (CHR ''.'')) then [domain]
      else domain # map (\<lambda>subDomain. subDomain @ ''.'' @ domain) subDomains)
   \<and> (\<forall>domains bundle.
         EvObtainCertificate domains bundle
           \<in> set (emitted w (snd (genCerts E email domain subDomains w))) \<longrightarrow>
         domains = buildDomains domain subDomains)"
  using genCerts_submits [of _ _ w E email domain subDomains]
  by (simp add: buildDomains_eq isSubDomain_def)

theorem genCerts_domain_set_witness:
  "buildDomains ''example.com'' [''www'', ''api''] =
     [''example.com'', ''www.example.com'', ''api.example.com'']
   \<and> buildDomains ''sub.example.com'' [''www'', ''api''] = [''sub.example.com'']
   \<and> EvObtainCertificate [''example.com'', ''www.example.com'', ''api.example.com''] True
       \<in> set (emitted (sampleWorld [])
               (snd (genCerts (sampleEnv 0 [] noFaults) ''admin@example.com'' ''example.com''
                      [''www'', ''api''] (sampleWorld []))))"
proof -
  have s2: "Split ''example.com'' (CHR ''.'') = [''example'', ''com'']"
    and s3: "Split ''sub.example.com'' (CHR ''.'') = [''sub'', ''example'', ''com'']"
    by code_simp+
  have b2: "buildDomains ''example.com'' [''www'', ''api''] =
     [''example.com'', ''www.example.com'', ''api.example.com'']"
    using genCerts_domain_set [of "''example.com''" "[''www'', ''api'']"] by (simp add: s2)
  have b3: "buildDomains ''sub.example.com'' [''www'', ''api''] = [''sub.example.com'']"
    using genCerts_domain_set [of "''sub.example.com''" "[''www'', ''api'']"] by (simp add: s3)
  have "genCerts (sampleEnv 0 [] noFaults) ''admin@example.com'' ''example.com''
                      [''www'', ''api''] (sampleWorld []) =
     ((issuedCert, None),
      (sampleWorld [])\<lparr>trace :=
         [EvGenerateKey rsaKeySize, EvNewClient ''https://ca.example/directory''
            ''admin@example.com'' RSA2048, EvRegister,
          EvAgreeToTOS, EvObtainCertificate (buildDomains ''example.com'' [''www'', ''api'']) True]\<rparr>)"
    using genCerts_exchange [where E = "sampleEnv 0 [] noFaults"
      and email = "''admin@example.com''" and domain = "''example.com''"
      and subDomains = "[''www'', ''api'']" and w = "sampleWorld []"
      and k = "RSAKey 2048 ''KEY''" and reg = "Registration_of ''https://ca.example/reg/1''"
      and res = issuedCert and failures = "[]"]
    by (simp add: sample_simps sampleWorld_simps rsaKeySize_def)
  then show ?thesis using b2 b3 by (simp add: emitted_def sampleWorld_simps)
qed

text \<open>
  C8. \<open>saveCerts\<close> writes \<^verbatim>\<open>public.crt\<close>, then \<^verbatim>\<open>private.key\<close>, then
  \<^verbatim>\<open>certs.json\<close> (the indented JSON), each with permission bits 0600 (384 in decimal).
  It stops at the first failure and returns its error; the files written before it stay on
  disk with their new contents.
\<close>

theorem saveCerts_sequential_writes:
  "(\<forall>e left. writeFault E (Join certsDir ''public.crt'') = Some (e, left) \<longrightarrow>
       fst (saveCerts E certsDir cert w) = Some e
       \<and> emitted w (snd (saveCerts E certsDir cert w)) =
           [EvWriteFile (Join certsDir ''public.crt'') (Certificate cert) perm0600])
   \<and> (\<forall>e left. writeFault E (Join certsDir ''public.crt'') = None
          \<and> writeFault E (Join certsDir ''private.key'') = Some (e, left) \<longrightarrow>
       fst (saveCerts E certsDir cert w) = Some e
       \<and> emitted w (snd (saveCerts E certsDir cert w)) =
           [EvWriteFile (Join certsDir ''public.crt'') (Certificate cert) perm0600,
            EvWriteFile (Join certsDir ''private.key'') (PrivateKey cert) perm0600]
       \<and> disk (snd (saveCerts E certsDir cert w)) (Join certsDir ''public.crt'') =
           Some (Certificate cert))
   \<and> (\<forall>e jsonBytes. writeFault E (Join certsDir ''public.crt'') = None
          \<and> writeFault E (Join certsDir ''private.key'') = None
          \<and> jsonMarshalIndent E cert [] [CHR 0x09] = (jsonBytes, Some e) \<longrightarrow>
       fst (saveCerts E certsDir cert w) = Some e
       \<and> emitted w (snd (saveCerts E certsDir cert w)) =
           [EvWriteFile (Join certsDir ''public.crt'') (Certificate cert) perm0600,
            EvWriteFile (Join certsDir ''private.key'') (PrivateKey cert) perm0600]
       \<and> disk (snd (saveCerts E certsDir cert w)) (Join certsDir ''public.crt'') =
           Some (Certificate cert)
       \<and> disk (snd (saveCerts E certsDir cert w)) (Join certsDir ''private.key'') =
           Some (PrivateKey cert))
   \<and> (\<forall>e left jsonBytes. writeFault E (Join certsDir ''public.crt'') = None
          \<and> writeFault E (Join certsDir ''private.key'') = None
          \<and> jsonMarshalIndent E cert [] [CHR 0x09] = (jsonBytes, None)
          \<and> writeFault E (Join certsDir ''certs.json'') = Some (e, left) \<longrightarrow>
       fst (saveCerts E certsDir cert w) = Some e
       \<and> emitted w (snd (saveCerts E certsDir cert w)) =
           [EvWriteFile (Join certsDir ''public.crt'') (Certificate cert) perm0600,
            EvWriteFile (Join certsDir ''private.key'') (PrivateKey cert) perm0600,
            EvWriteFile (Join certsDir ''certs.json'') jsonBytes perm0600]
       \<and> disk (snd (saveCerts E certsDir cert w)) (Join certsDir ''public.crt'') =
           Some (Certificate cert)
       \<and> disk (snd (saveCerts E certsDir cert w)) (Join certsDir ''private.key'') =
           Some (PrivateKey cert))
   \<and> (\<forall>jsonBytes. writeFault E (Join certsDir ''public.crt'') = None
          \<and> writeFault E (Join certsDir ''private.key'') = None
          \<and> jsonMarshalIndent E cert [] [CHR 0x09] = (jsonBytes, None)
          \<and> writeFault E (Join certsDir ''certs.json'') = None \<longrightarrow>
       fst (saveCerts E certsDir cert w) = None
       \<and> emitted w (snd (saveCerts E certsDir cert w)) =
           [EvWriteFile (Join certsDir ''public.crt'') (Certificate cert) perm0600,
            EvWriteFile (Join certsDir ''private.key'') (PrivateKey cert) perm0600,
            EvWriteFile (Join certsDir ''certs.json'') jsonBytes perm0600]
       \<and> disk (snd (saveCerts E certsDir cert w)) (Join certsDir ''public.crt'') =
           Some (Certificate cert)
       \<and> disk (snd (saveCerts E certsDir cert w)) (Join certsDir ''private.key'') =
           Some (PrivateKey cert)
       \<and> disk (snd (saveCerts E certsDir cert w)) (Join certsDir ''certs.json'') =
           Some jsonBytes)
   \<and> perm0600 = 384"
  by (simp add: saveCerts_def collaborator_defs emitted_def Let_def perm0600_def)

theorem saveCerts_sequential_writes_witness:
  "fst (saveCerts (sampleEnv 0 [] metaFault) ''certs'' issuedCert (sampleWorld ''CERT'')) =
     Some diskFull
   \<and> disk (snd (saveCerts (sampleEnv 0 [] metaFault) ''certs'' issuedCert (sampleWorld ''CERT'')))
        (Join ''certs'' ''public.crt'') = Some ''NEWCERT''
   \<and> disk (snd (saveCerts (sampleEnv 0 [] metaFault) ''certs'' issuedCert (sampleWorld ''CERT'')))
        (Join ''certs'' ''private.key'') = Some ''NEWKEY''
   \<and> fst (saveCerts (sampleEnv 0 [] noFaults) ''certs'' issuedCert (sampleWorld ''CERT'')) = None
   \<and> emitted (sampleWorld ''CERT'')
        (snd (saveCerts (sampleEnv 0 [] noFaults) ''certs'' issuedCert (sampleWorld ''CERT''))) =
       [EvWriteFile (Join ''certs'' ''public.crt'') ''NEWCERT'' 384,
        EvWriteFile (Join ''certs'' ''private.key'') ''NEWKEY'' 384,
        EvWriteFile (Join ''certs'' ''certs.json'') ''JSON'' 384]"
  using saveCerts_sequential_writes [of "sampleEnv 0 [] metaFault" "''certs''" issuedCert
      "sampleWorld ''CERT''"]
    saveCerts_sequential_writes [of "sampleEnv 0 [] noFaults" "''certs''" issuedCert
      "sampleWorld ''CERT''"]
  by (simp add: sample_simps metaFault_def noFaults_def issuedCert_def)

text \<open>
  C10, as stated, fails at its upper bound: with exactly 46 days left the day count is 46,
  not 45, and the renewal is refused.
\<close>

theorem daysUntilExpiry_46_days_counterexample:
  "Sub (sampleNow + 46 * Day) sampleNow = 46 * Day
   \<and> daysUntilExpiry (sampleNow + 46 * Day) sampleNow = 46
   \<and> renewCerts (sampleEnv (46 * Day) [] noFaults) ''certs'' ''admin@example.com''
        (sampleWorld ''CERT'') =
      ((emptyResource, Some (Errorf notExpiredFormat [ArgInt 46])),
       (sampleWorld ''CERT'')\<lparr>trace := [EvReadFile (Join ''certs'' ''public.crt''), EvNow]\<rparr>)"
proof -
  have s: "Sub (sampleNow + 46 * Day) sampleNow = 46 * Day"
    by (rule Sub_sample) (simp_all add: Day_def Hour_def)
  have d: "daysUntilExpiry (sampleNow + 46 * Day) sampleNow = 46"
    by (rule days_sample) (simp_all add: Day_def Hour_def)
  have "renewCerts (sampleEnv (46 * Day) [] noFaults) ''certs'' ''admin@example.com''
        (sampleWorld ''CERT'') =
      ((emptyResource, Some (Errorf notExpiredFormat [ArgInt 46])),
       (sampleWorld ''CERT'')\<lparr>trace := [EvReadFile (Join ''certs'' ''public.crt''), EvNow]\<rparr>)"
    using renewCerts_refuses [where E = "sampleEnv (46 * Day) [] noFaults"
        and certsDir = "''certs''" and w = "sampleWorld ''CERT''" and certBytes = "''CERT''"
        and email = "''admin@example.com''"] d
    by (simp add: sample_simps sampleWorld_simps renewDaysLimit_def)
  with s d show ?thesis by simp
qed

text \<open>
  C10, amended. The day count is the duration in hours, divided by 24 and truncated toward
  zero. With at least 45 and less than 46 days left it is 45, which does not exceed the
  limit, and the renewal proceeds. The gate refuses exactly when the count is at least 46,
  that is when 46 full days or more remain.
\<close>

theorem daysUntilExpiry_gate:
  "daysUntilExpiry expTime now = toInt (float64 (Hours (Sub expTime now) / 24))
   \<and> (45 * Day \<le> Sub expTime now \<and> Sub expTime now < 46 * Day \<longrightarrow>
        daysUntilExpiry expTime now = 45 \<and> \<not> renewDaysLimit < daysUntilExpiry expTime now)
   \<and> (renewDaysLimit < daysUntilExpiry expTime now \<longleftrightarrow> 46 \<le> daysUntilExpiry expTime now)
   \<and> (46 \<le> daysUntilExpiry expTime now \<longleftrightarrow> 46 * Day \<le> Sub expTime now)
   \<and> (readFault E (Join certsDir ''public.crt'') = None
        \<and> disk w (Join certsDir ''public.crt'') = Some certBytes
        \<and> expTime = fst (pemCertExpiration E certBytes) \<and> now = clock E \<longrightarrow>
        (renewCerts E certsDir email w =
           ((emptyResource, Some (Errorf notExpiredFormat [ArgInt (daysUntilExpiry expTime now)])),
            w\<lparr>trace := trace w @ [EvReadFile (Join certsDir ''public.crt''), EvNow]\<rparr>)
         \<longleftrightarrow> 46 * Day \<le> Sub expTime now))"
proof (intro conjI impI)
  show "daysUntilExpiry expTime now = toInt (float64 (Hours (Sub expTime now) / 24))"
    by (rule daysUntilExpiry_def)
next
  assume a: "45 * Day \<le> Sub expTime now \<and> Sub expTime now < 46 * Day"
  then show "daysUntilExpiry expTime now = 45"
    by (simp add: daysUntilExpiry_daysOf daysOf_45)
  then show "\<not> renewDaysLimit < daysUntilExpiry expTime now"
    by (simp add: renewDaysLimit_def)
next
  show "renewDaysLimit < daysUntilExpiry expTime now \<longleftrightarrow> 46 \<le> daysUntilExpiry expTime now"
    by (auto simp: renewDaysLimit_def)
next
  show "46 \<le> daysUntilExpiry expTime now \<longleftrightarrow> 46 * Day \<le> Sub expTime now"
    by (simp add: daysUntilExpiry_daysOf daysOf_gate)
next
  assume h: "readFault E (Join certsDir ''public.crt'') = None
        \<and> disk w (Join certsDir ''public.crt'') = Some certBytes
        \<and> expTime = fst (pemCertExpiration E certBytes) \<and> now = clock E"
  then have l: "readFault E (Join certsDir ''public.crt'') = None"
    "disk w (Join certsDir ''public.crt'') = Some certBytes" by simp_all
  let ?days = "daysUntilExpiry (fst (pemCertExpiration E certBytes)) (clock E)"
  let ?refusal = "((emptyResource, Some (Errorf notExpiredFormat [ArgInt ?days])),
            w\<lparr>trace := trace w @ [EvReadFile (Join certsDir ''public.crt''), EvNow]\<rparr>)"
  have "renewCerts E certsDir email w = ?refusal \<longleftrightarrow> renewDaysLimit < ?days"
  proof
    assume r: "renewCerts E certsDir email w = ?refusal"
    show "renewDaysLimit < ?days"
    proof (rule ccontr)
      assume "\<not> renewDaysLimit < ?days"
      from renewCerts_proceeds [OF l this, of email] obtain rest where
        "emitted w (snd (renewCerts E certsDir email w)) =
           [EvReadFile (Join certsDir ''public.crt''), EvNow, EvGenerateKey rsaKeySize] @ rest" ..
      with r show False by (simp add: emitted_def)
    qed
  next
    assume "renewDaysLimit < ?days"
    with l show "renewCerts E certsDir email w = ?refusal" by (rule renewCerts_refuses)
  qed
  also have "renewDaysLimit < ?days \<longleftrightarrow> 46 * Day \<le> Sub (fst (pemCertExpiration E certBytes)) (clock E)"
    using daysOf_gate [of "Sub (fst (pemCertExpiration E certBytes)) (clock E)"]
    by (auto simp: renewDaysLimit_def daysUntilExpiry_daysOf)
  finally show "renewCerts E certsDir email w =
           ((emptyResource, Some (Errorf notExpiredFormat [ArgInt (daysUntilExpiry expTime now)])),
            w\<lparr>trace := trace w @ [EvReadFile (Join certsDir ''public.crt''), EvNow]\<rparr>)
         \<longleftrightarrow> 46 * Day \<le> Sub expTime now"
    using h by simp
qed

theorem daysUntilExpiry_gate_witness:
  "Sub (sampleNow + (45 * Day + 23 * Hour)) sampleNow = 45 * Day + 23 * Hour
   \<and> daysUntilExpiry (sampleNow + (45 * Day + 23 * Hour)) sampleNow = 45
   \<and> emitted (sampleWorld ''CERT'')
        (snd (renewCerts (sampleEnv (45 * Day + 23 * Hour) [] noFaults) ''certs''
               ''admin@example.com'' (sampleWorld ''CERT''))) =
      [EvReadFile (Join ''certs'' ''public.crt''), EvNow, EvGenerateKey 2048,
       EvNewClient ''https://ca.example/directory'' ''admin@example.com'' RSA2048,
       EvReadFile (Join ''certs'' ''certs.json''),
       EvRenewCertificate (sampleMeta\<lparr>Certificate := ''CERT''\<rparr>) True]
   \<and> renewCerts (sampleEnv (47 * Day) [] noFaults) ''certs'' ''admin@example.com''
        (sampleWorld ''CERT'') =
      ((emptyResource, Some (Errorf notExpiredFormat [ArgInt 47])),
       (sampleWorld ''CERT'')\<lparr>trace := [EvReadFile (Join ''certs'' ''public.crt''), EvNow]\<rparr>)"
proof -
  have s: "Sub (sampleNow + (45 * Day + 23 * Hour)) sampleNow = 45 * Day + 23 * Hour"
    by (rule Sub_sample) (simp_all add: Day_def Hour_def)
  have s47: "Sub (sampleNow + 47 * Day) sampleNow = 47 * Day"
    by (rule Sub_sample) (simp_all add: Day_def Hour_def)
  have b: "45 * Day \<le> 45 * Day + 23 * Hour \<and> 45 * Day + 23 * Hour < 46 * Day"
    by (simp add: Day_def Hour_def)
  have d: "daysUntilExpiry (sampleNow + (45 * Day + 23 * Hour)) sampleNow = 45"
    using daysUntilExpiry_gate [of "sampleNow + (45 * Day + 23 * Hour)" sampleNow, unfolded s] b
    by blast
  have d47: "daysUntilExpiry (sampleNow + 47 * Day) sampleNow = 47"
    by (rule days_sample) (simp_all add: Day_def Hour_def)
  have r47: "renewCerts (sampleEnv (47 * Day) [] noFaults) ''certs'' ''admin@example.com''
        (sampleWorld ''CERT'') =
      ((emptyResource, Some (Errorf notExpiredFormat [ArgInt 47])),
       (sampleWorld ''CERT'')\<lparr>trace := [EvReadFile (Join ''certs'' ''public.crt''), EvNow]\<rparr>)"
    using daysUntilExpiry_gate [where expTime = "sampleNow + 47 * Day" and now = sampleNow
        and E = "sampleEnv (47 * Day) [] noFaults" and certsDir = "''certs''"
        and w = "sampleWorld ''CERT''" and certBytes = "''CERT''"
        and email = "''admin@example.com''"] s47 d47
    by (simp add: sample_simps sampleWorld_simps Day_def Hour_def)
  have "renewCerts (sampleEnv (45 * Day + 23 * Hour) [] noFaults) ''certs''
               ''admin@example.com'' (sampleWorld ''CERT'') =
     ((issuedCert, None),
      (sampleWorld ''CERT'')\<lparr>trace := trace (sampleWorld ''CERT'') @
        [EvReadFile (Join ''certs'' ''public.crt''), EvNow, EvGenerateKey rsaKeySize,
         EvNewClient (acmeServer (sampleEnv (45 * Day + 23 * Hour) [] noFaults))
           ''admin@example.com'' RSA2048, EvReadFile (Join ''certs'' ''certs.json''),
         EvRenewCertificate (sampleMeta\<lparr>Certificate := ''CERT''\<rparr>) True]\<rparr>)"
    using renewCerts_exchange [where E = "sampleEnv (45 * Day + 23 * Hour) [] noFaults"
        and certsDir = "''certs''" and w = "sampleWorld ''CERT''" and certBytes = "''CERT''"
        and email = "''admin@example.com''" and k = "RSAKey 2048 ''KEY''"
        and metaBytes = "''{}''" and certMeta = sampleMeta] d
    by (simp add: sample_simps sampleWorld_simps renewDaysLimit_def rsaKeySize_def)
  then show ?thesis using s d r47
    by (simp add: emitted_def sample_simps sampleWorld_simps rsaKeySize_def)
qed

text \<open>
  C1 does not hold of the code: \<open>renewCerts\<close> generates a key and builds a client, but
  neither registers the account nor accepts the agreement before it requests the renewal,
  which \<open>genCerts\<close> does on the same collaborators.
\<close>

theorem renewCerts_skips_registration:
  "renewCerts (sampleEnv (10 * Day) [] noFaults) ''certs'' ''admin@example.com''
      (sampleWorld ''CERT'') =
     ((issuedCert, None),
      (sampleWorld ''CERT'')\<lparr>trace :=
         [EvReadFile (Join ''certs'' ''public.crt''), EvNow, EvGenerateKey 2048,
          EvNewClient ''https://ca.example/directory'' ''admin@example.com'' RSA2048,
          EvReadFile (Join ''certs'' ''certs.json''),
          EvRenewCertificate (sampleMeta\<lparr>Certificate := ''CERT''\<rparr>) True]\<rparr>)
   \<and> EvRegister \<notin> set (trace (snd (renewCerts (sampleEnv (10 * Day) [] noFaults) ''certs''
                                    ''admin@example.com'' (sampleWorld ''CERT''))))
   \<and> EvAgreeToTOS \<notin> set (trace (snd (renewCerts (sampleEnv (10 * Day) [] noFaults) ''certs''
                                    ''admin@example.com'' (sampleWorld ''CERT''))))
   \<and> trace (snd (genCerts (sampleEnv (10 * Day) [] noFaults) ''admin@example.com''
                   ''example.com'' [] (sampleWorld ''CERT''))) =
       [EvGenerateKey 2048,
        EvNewClient ''https://ca.example/directory'' ''admin@example.com'' RSA2048,
        EvRegister, EvAgreeToTOS, EvObtainCertificate [''example.com''] True]"
proof -
  have d: "daysUntilExpiry (sampleNow + 10 * Day) sampleNow = 10"
    by (rule days_sample) (simp_all add: Day_def Hour_def)
  have r: "renewCerts (sampleEnv (10 * Day) [] noFaults) ''certs'' ''admin@example.com''
      (sampleWorld ''CERT'') =
     ((issuedCert, None),
      (sampleWorld ''CERT'')\<lparr>trace :=
         [EvReadFile (Join ''certs'' ''public.crt''), EvNow, EvGenerateKey 2048,
          EvNewClient ''https://ca.example/directory'' ''admin@example.com'' RSA2048,
          EvReadFile (Join ''certs'' ''certs.json''),
          EvRenewCertificate (sampleMeta\<lparr>Certificate := ''CERT''\<rparr>) True]\<rparr>)"
    using renewCerts_exchange [where E = "sampleEnv (10 * Day) [] noFaults"
        and certsDir = "''certs''" and w = "sampleWorld ''CERT''" and certBytes = "''CERT''"
        and email = "''admin@example.com''" and k = "RSAKey 2048 ''KEY''"
        and metaBytes = "''{}''" and certMeta = sampleMeta] d
    by (simp add: sample_simps sampleWorld_simps renewDaysLimit_def rsaKeySize_def)
  have s: "Split ''example.com'' (CHR ''.'') = [''example'', ''com'']"
    by code_simp
  have g: "genCerts (sampleEnv (10 * Day) [] noFaults) ''admin@example.com''
                   ''example.com'' [] (sampleWorld ''CERT'') =
     ((issuedCert, None),
      (sampleWorld ''CERT'')\<lparr>trace :=
       [EvGenerateKey 2048,
        EvNewClient ''https://ca.example/directory'' ''admin@example.com'' RSA2048,
        EvRegister, EvAgreeToTOS, EvObtainCertificate [''example.com''] True]\<rparr>)"
    using genCerts_exchange [where E = "sampleEnv (10 * Day) [] noFaults"
      and email = "''admin@example.com''" and domain = "''example.com''"
      and subDomains = "[]" and w = "sampleWorld ''CERT''"
      and k = "RSAKey 2048 ''KEY''" and reg = "Registration_of ''https://ca.example/reg/1''"
      and res = issuedCert and failures = "[]"]
    by (simp add: sample_simps sampleWorld_simps rsaKeySize_def buildDomains_eq isSubDomain_def s)
  show ?thesis
    unfolding r g by simp
qed

text \<open>
  C2 does not hold of the code: when the stored bytes are not a certificate, the error of
  the expiration extraction is dropped, the day count is computed from the zero time, the
  gate is passed and the renewal is requested; \<open>getCertExpTime\<close> returns that error.
\<close>

theorem renewCerts_swallows_parse_error:
  "pemCertExpiration (sampleEnv (10 * Day) [] noFaults) ''garbage'' = (zeroTime, Some parseError)
   \<and> daysUntilExpiry zeroTime sampleNow = - 106751
   \<and> renewCerts (sampleEnv (10 * Day) [] noFaults) ''certs'' ''admin@example.com''
        (sampleWorld ''garbage'') =
     ((issuedCert, None),
      (sampleWorld ''garbage'')\<lparr>trace :=
         [EvReadFile (Join ''certs'' ''public.crt''), EvNow, EvGenerateKey 2048,
          EvNewClient ''https://ca.example/directory'' ''admin@example.com'' RSA2048,
          EvReadFile (Join ''certs'' ''certs.json''),
          EvRenewCertificate (sampleMeta\<lparr>Certificate := ''garbage''\<rparr>) True]\<rparr>)
   \<and> fst (getCertExpTime (sampleEnv (10 * Day) [] noFaults) ''certs'' (sampleWorld ''garbage'')) =
       (zeroTime, Some parseError)"
proof -
  have r: "renewCerts (sampleEnv (10 * Day) [] noFaults) ''certs'' ''admin@example.com''
        (sampleWorld ''garbage'') =
     ((issuedCert, None),
      (sampleWorld ''garbage'')\<lparr>trace :=
         [EvReadFile (Join ''certs'' ''public.crt''), EvNow, EvGenerateKey 2048,
          EvNewClient ''https://ca.example/directory'' ''admin@example.com'' RSA2048,
          EvReadFile (Join ''certs'' ''certs.json''),
          EvRenewCertificate (sampleMeta\<lparr>Certificate := ''garbage''\<rparr>) True]\<rparr>)"
    using renewCerts_exchange [where E = "sampleEnv (10 * Day) [] noFaults"
        and certsDir = "''certs''" and w = "sampleWorld ''garbage''" and certBytes = "''garbage''"
        and email = "''admin@example.com''" and k = "RSAKey 2048 ''KEY''"
        and metaBytes = "''{}''" and certMeta = sampleMeta] days_zeroTime
    by (simp add: sample_simps sampleWorld_simps renewDaysLimit_def rsaKeySize_def)
  have g: "fst (getCertExpTime (sampleEnv (10 * Day) [] noFaults) ''certs''
                 (sampleWorld ''garbage'')) = (zeroTime, Some parseError)"
    by (simp add: getCertExpTime_def loadCert_def collaborator_defs Let_def sample_simps
        sampleWorld_simps)
  show ?thesis
    using r g days_zeroTime by (simp add: sample_simps)
qed

end
